theory Spec2Isabelle
  imports Complex_Main "HOL-Library.Sublist"
begin

section \<open>The Eagle penetration tester (security-tests/penetration-tests.py)\<close>

text \<open>
  The tester sends a fixed battery of HTTP requests and classifies every answer into a
  result record. The model makes the two sources of input explicit: the network (which
  answers the k-th request either with a response or with an exception) and the clock.
  Console output is not part of the model; the report file is recorded as the list that is
  serialised into it, and writing it is taken to succeed.

  Python strings are modelled as HOL strings, one \<^typ>\<open>char\<close> per code point; the accented
  letters of the source's messages are the Latin-1 code points.
\<close>

subsection \<open>Strings\<close>

definition a_tilde :: string where "a_tilde = [CHR 0xE3]"
definition a_acute :: string where "a_acute = [CHR 0xE1]"
definition i_acute :: string where "i_acute = [CHR 0xED]"
definition c_cedil :: string where "c_cedil = [CHR 0xE7]"

text \<open>\<^verbatim>\<open>str(n)\<close> for an integer: decimal digits, with a minus sign when negative.\<close>

definition digit_char :: "nat \<Rightarrow> char" where
  "digit_char d = ''0123456789'' ! d"

fun str_nat :: "nat \<Rightarrow> string" where
  "str_nat n = (if n < 10 then [digit_char n] else str_nat (n div 10) @ [digit_char (n mod 10)])"

declare str_nat.simps [simp del]

definition str_int :: "int \<Rightarrow> string" where
  "str_int i = (if i < 0 then CHR ''-'' # str_nat (nat (- i)) else str_nat (nat i))"

text \<open>\<^verbatim>\<open>s.rstrip(c)\<close> for a one-character argument.\<close>

definition rstrip :: "char \<Rightarrow> string \<Rightarrow> string" where
  "rstrip c s = rev (dropWhile (\<lambda>x. x = c) (rev s))"

text \<open>\<^verbatim>\<open>s.lower()\<close>, on the ASCII letters.\<close>

definition lower_char :: "char \<Rightarrow> char" where
  "lower_char c = (let n = (of_char c :: nat) in if 65 \<le> n \<and> n \<le> 90 then char_of (n + 32) else c)"

definition lower :: "string \<Rightarrow> string" where
  "lower s = map lower_char s"

text \<open>\<^verbatim>\<open>needle in haystack\<close> on strings: the needle occurs as a contiguous substring.\<close>

fun contains :: "string \<Rightarrow> string \<Rightarrow> bool" where
  "contains needle [] = (needle = [])"
| "contains needle (c # cs) = (prefix needle (c # cs) \<or> contains needle cs)"

text \<open>\<^verbatim>\<open>sep.join(xs)\<close>.\<close>

fun join :: "string \<Rightarrow> string list \<Rightarrow> string" where
  "join sep [] = []"
| "join sep [x] = x"
| "join sep (x # y # ys) = x @ sep @ join sep (y # ys)"

text \<open>
  \<^verbatim>\<open>s.replace(old, new)\<close> for a non-empty \<open>old\<close>: every non-overlapping occurrence,
  from the left. The source only calls it with \<open>old = 'https://'\<close>.
\<close>

function str_replace :: "string \<Rightarrow> string \<Rightarrow> string \<Rightarrow> string" where
  "str_replace old new [] = []"
| "str_replace old new (c # cs) =
     (if old \<noteq> [] \<and> prefix old (c # cs)
      then new @ str_replace old new (drop (length old) (c # cs))
      else c # str_replace old new cs)"
  by pat_completeness auto
termination
  by (relation "measure (\<lambda>(old, new, s). length s)") auto

subsection \<open>Data model\<close>

text \<open>
  A result record is the dictionary built by \<open>log_result\<close> (lines 49-55). Its time is kept
  as the reading of the clock; the ISO text of the local time is not modelled.
\<close>

record result =
  timestamp :: int
  test :: string
  status :: string
  details :: string
  severity :: string

text \<open>An exception carries the text that \<^verbatim>\<open>str(e)\<close> returns.\<close>

datatype exn = Exn string

fun str_exn :: "exn \<Rightarrow> string" where
  "str_exn (Exn m) = m"

text \<open>
  A response as the checks read it: the status code, the headers and the body text. The
  headers of the HTTP library are a case-insensitive dictionary, kept here as the list of
  its items and looked up by the lower-cased name.
\<close>

record response =
  status_code :: int
  headers :: "(string \<times> string) list"
  text_body :: string

definition header_get :: "response \<Rightarrow> string \<Rightarrow> string option" where
  "header_get r name = map_of (map (\<lambda>(k, v). (lower k, v)) (headers r)) (lower name)"

text \<open>A request as the checks build it; \<open>verb\<close> is the HTTP method.\<close>

record request =
  verb :: string
  url :: string
  req_headers :: "(string \<times> string) list"
  json_body :: "(string \<times> string) list"
  allow_redirects :: bool

text \<open>
  The environment of a run. \<open>net k rq\<close> is what the k-th request of the run gets when it
  is \<open>rq\<close>: an exception of the HTTP library or a response. \<open>clock k\<close> is the k-th reading
  of the system clock, in microseconds since the epoch. The last two fields are the local
  time zone of the platform: \<open>utc_offset u\<close> is the offset from UTC, in seconds, in force at
  the POSIX second \<open>u\<close>, and \<open>mktime_ok u\<close> says whether the platform's \<^verbatim>\<open>localtime\<close>
  converts \<open>u\<close> when \<^verbatim>\<open>datetime.timestamp()\<close> asks for it (it raises \<^verbatim>\<open>OverflowError\<close> or
  \<^verbatim>\<open>OSError\<close> outside the platform's range).
\<close>

record env =
  net :: "nat \<Rightarrow> request \<Rightarrow> exn + response"
  clock :: "nat \<Rightarrow> int"
  mktime_ok :: "int \<Rightarrow> bool"
  utc_offset :: "int \<Rightarrow> int"

text \<open>
  The tester instance (lines 30-45) together with the trace of the run: the requests sent
  so far, the number of clock readings so far and the report files written.
\<close>

record tester =
  base_url :: string
  auth_token :: "string option"
  session_headers :: "(string \<times> string) list"
  results :: "result list"
  sent :: "request list"
  ticks :: nat
  files :: "(int \<times> result list) list"

text \<open>\<^verbatim>\<open>dict.update\<close> on the session headers: an existing key keeps its place.\<close>

fun dict_update :: "(string \<times> string) list \<Rightarrow> string \<Rightarrow> string \<Rightarrow> (string \<times> string) list" where
  "dict_update [] k v = [(k, v)]"
| "dict_update ((k', v') # kvs) k v =
     (if k' = k then (k, v) # kvs else (k', v') # dict_update kvs k v)"

definition init :: "string \<Rightarrow> string option \<Rightarrow> tester" where
  "init target token =
     (let hs = [(''User-Agent'', ''Eagle-Security-Tester/1.0''),
                (''Content-Type'', ''application/json'')];
          hs' = (case token of
                   None \<Rightarrow> hs
                 | Some t \<Rightarrow> if t = [] then hs else dict_update hs ''Authorization'' (''Bearer '' @ t))
      in \<lparr>base_url = rstrip CHR ''/'' target, auth_token = token, session_headers = hs',
          results = [], sent = [], ticks = 0, files = []\<rparr>)"

subsection \<open>Primitive effects\<close>

definition now :: "env \<Rightarrow> tester \<Rightarrow> int \<times> tester" where
  "now e s = (clock e (ticks s), s\<lparr>ticks := Suc (ticks s)\<rparr>)"

definition send :: "env \<Rightarrow> request \<Rightarrow> tester \<Rightarrow> (exn + response) \<times> tester" where
  "send e rq s = (net e (length (sent s)) rq, s\<lparr>sent := sent s @ [rq]\<rparr>)"

text \<open>\<^verbatim>\<open>requests.get(url, headers=hs)\<close>: a request outside the session.\<close>

definition plain_get :: "string \<Rightarrow> (string \<times> string) list \<Rightarrow> request" where
  "plain_get u hs = \<lparr>verb = ''GET'', url = u, req_headers = hs, json_body = [],
                     allow_redirects = True\<rparr>"

text \<open>\<^verbatim>\<open>self.session.get(url)\<close>: the session's default headers go with it.\<close>

definition session_get :: "tester \<Rightarrow> string \<Rightarrow> request" where
  "session_get s u = \<lparr>verb = ''GET'', url = u, req_headers = session_headers s,
                      json_body = [], allow_redirects = True\<rparr>"

definition session_post :: "tester \<Rightarrow> string \<Rightarrow> (string \<times> string) list \<Rightarrow> request" where
  "session_post s u d = \<lparr>verb = ''POST'', url = u, req_headers = session_headers s,
                         json_body = d, allow_redirects = True\<rparr>"

text \<open>\<open>log_result\<close> (lines 47-70): the record is appended to \<open>self.results\<close>.\<close>

definition log_result :: "env \<Rightarrow> string \<Rightarrow> string \<Rightarrow> string \<Rightarrow> string \<Rightarrow> tester \<Rightarrow> tester" where
  "log_result e test_name st dt sev s =
     (case now e s of (t, s1) \<Rightarrow>
        s1\<lparr>results := results s1 @
              [\<lparr>timestamp = t, test = test_name, status = st, details = dt, severity = sev\<rparr>]\<rparr>)"

definition status_url :: "tester \<Rightarrow> string" where
  "status_url s = base_url s @ ''/api/v1/alerts/status''"

subsection \<open>Injection checks (lines 151-224)\<close>

definition injection_keywords :: "string list" where
  "injection_keywords = [''error'', ''exception'', ''stack'']"

text \<open>The request of lines 197-204.\<close>

definition injection_request :: "tester \<Rightarrow> string \<Rightarrow> string \<Rightarrow> request" where
  "injection_request s field payload =
     (let data = [(field, payload), (''scopeStartDate'', ''2024-01-01''),
                  (''scopeEndDate'', ''2024-01-31'')]
      in session_post s (base_url s @ ''/api/v1/alerts/create'') data)"

definition test_injection_payload :: "env \<Rightarrow> string \<Rightarrow> string \<Rightarrow> string \<Rightarrow> tester \<Rightarrow> tester" where
  "test_injection_payload e attack_type payload field s =
     (case send e (injection_request s field payload) s of
        (Inl ex, s1) \<Rightarrow>
          log_result e (attack_type @ '' Payload Test'') ''ERROR'' (str_exn ex) ''WARN'' s1
      | (Inr r, s1) \<Rightarrow>
          (let name = attack_type @ '' ('' @ take 30 payload @ ''...)'' in
           if status_code r \<in> set [400, 422]
           then log_result e name ''PASS'' ''Payload rejeitado'' ''PASS'' s1
           else if status_code r = 200
           then (let response_text = lower (text_body r) in
                 if list_ex (\<lambda>keyword. contains keyword response_text) injection_keywords
                 then log_result e name ''WARN''
                        (''Poss'' @ i_acute @ ''vel vulnerabilidade detectada'') ''WARN'' s1
                 else log_result e name ''FAIL''
                        (''Payload aceito sem valida'' @ c_cedil @ a_tilde @ ''o'') ''FAIL'' s1)
           else log_result e name ''INFO''
                  (''Status inesperado: '' @ str_int (status_code r)) ''INFO'' s1))"

definition sql_payloads :: "string list" where
  "sql_payloads =
     [[CHR 0x27] @ ''; DROP TABLE alerts; --'',
      [CHR 0x27] @ '' OR '' @ [CHR 0x27] @ ''1'' @ [CHR 0x27] @ ''='' @ [CHR 0x27] @ ''1'',
      [CHR 0x27] @ '' UNION SELECT * FROM users --'',
      [CHR 0x27] @ ''; INSERT INTO alerts VALUES ('' @ [CHR 0x27] @ ''malicious'' @ [CHR 0x27] @ ''); --'',
      [CHR 0x27] @ '' OR 1=1 --'']"

definition xss_payloads :: "string list" where
  "xss_payloads =
     [''<script>alert('' @ [CHR 0x27] @ ''xss'' @ [CHR 0x27] @ '')</script>'',
      ''javascript:alert('' @ [CHR 0x27] @ ''xss'' @ [CHR 0x27] @ '')'',
      ''<img src=x onerror=alert('' @ [CHR 0x27] @ ''xss'' @ [CHR 0x27] @ '')>'',
      [CHR 0x27] @ '';alert('' @ [CHR 0x27] @ ''xss'' @ [CHR 0x27] @ '');//'',
      ''<svg onload=alert('' @ [CHR 0x27] @ ''xss'' @ [CHR 0x27] @ '')>'']"

definition cmd_payloads :: "string list" where
  "cmd_payloads = [''; ls -la'', ''| whoami'', ''&& cat /etc/passwd'', [CHR 0x60] @ ''id'' @ [CHR 0x60], ''$(whoami)'']"

definition test_injection_attacks :: "env \<Rightarrow> tester \<Rightarrow> tester" where
  "test_injection_attacks e s =
     (let s1 = fold (\<lambda>payload. test_injection_payload e ''SQL Injection'' payload ''customerDocument'')
                 sql_payloads s;
          s2 = fold (\<lambda>payload. test_injection_payload e ''XSS'' payload ''customerDocument'')
                 xss_payloads s1
      in fold (\<lambda>payload. test_injection_payload e ''Command Injection'' payload ''customerDocument'')
           cmd_payloads s2)"

subsection \<open>The synthetic expired token (lines 398-418)\<close>

text \<open>
  \<^verbatim>\<open>json.dumps\<close> of a flat dictionary of strings and integers, with the default separators.
  The strings of the source's two dictionaries need no escaping.
\<close>

datatype jvalue = JStr string | JInt int

definition json_string :: "string \<Rightarrow> string" where
  "json_string s = [CHR 0x22] @ s @ [CHR 0x22]"

fun json_value :: "jvalue \<Rightarrow> string" where
  "json_value (JStr s) = json_string s"
| "json_value (JInt i) = str_int i"

definition json_dumps :: "(string \<times> jvalue) list \<Rightarrow> string" where
  "json_dumps kvs =
     ''{'' @ join '', '' (map (\<lambda>(k, v). json_string k @ '': '' @ json_value v) kvs) @ ''}''"

text \<open>
  \<^verbatim>\<open>base64.urlsafe_b64encode\<close>: three bytes give four characters of the URL-safe alphabet,
  and the last group is padded with \<^verbatim>\<open>=\<close>. The JSON text is ASCII, so its encoding to bytes
  and the decoding of the result are the identity.
\<close>

definition b64url_char :: "nat \<Rightarrow> char" where
  "b64url_char n =
     (if n < 26 then char_of (65 + n)
      else if n < 52 then char_of (71 + n)
      else if n < 62 then char_of (n - 4)
      else if n = 62 then CHR ''-'' else CHR ''_'')"

fun urlsafe_b64encode :: "string \<Rightarrow> string" where
  "urlsafe_b64encode [] = []"
| "urlsafe_b64encode [a] =
     (let x = (of_char a :: nat)
      in [b64url_char (x div 4), b64url_char ((x mod 4) * 16), CHR ''='', CHR ''=''])"
| "urlsafe_b64encode [a, b] =
     (let x = (of_char a :: nat); y = (of_char b :: nat)
      in [b64url_char (x div 4), b64url_char ((x mod 4) * 16 + y div 16),
          b64url_char ((y mod 16) * 4), CHR ''=''])"
| "urlsafe_b64encode (a # b # c # rest) =
     (let x = (of_char a :: nat); y = (of_char b :: nat); z = (of_char c :: nat)
      in [b64url_char (x div 4), b64url_char ((x mod 4) * 16 + y div 16),
          b64url_char ((y mod 16) * 4 + z div 64), b64url_char (z mod 64)]
         @ urlsafe_b64encode rest)"

text \<open>
  The decoder the claims speak of: the inverse alphabet, and four characters back to three
  bytes; it reads the unpadded form and refuses any character outside the alphabet.
\<close>

definition b64url_val :: "char \<Rightarrow> nat option" where
  "b64url_val ch =
     (let n = (of_char ch :: nat) in
      if 65 \<le> n \<and> n \<le> 90 then Some (n - 65)
      else if 97 \<le> n \<and> n \<le> 122 then Some (n - 71)
      else if 48 \<le> n \<and> n \<le> 57 then Some (n + 4)
      else if n = 45 then Some 62
      else if n = 95 then Some 63
      else None)"

fun b64url_decode :: "string \<Rightarrow> string option" where
  "b64url_decode [] = Some []"
| "b64url_decode [c1] = None"
| "b64url_decode [c1, c2] =
     (case (b64url_val c1, b64url_val c2) of
        (Some p, Some q) \<Rightarrow> Some [char_of (p * 4 + q div 16)]
      | _ \<Rightarrow> None)"
| "b64url_decode [c1, c2, c3] =
     (case (b64url_val c1, b64url_val c2, b64url_val c3) of
        (Some p, Some q, Some r) \<Rightarrow>
          Some [char_of (p * 4 + q div 16), char_of ((q mod 16) * 16 + r div 4)]
      | _ \<Rightarrow> None)"
| "b64url_decode (c1 # c2 # c3 # c4 # rest) =
     (case (b64url_val c1, b64url_val c2, b64url_val c3, b64url_val c4) of
        (Some p, Some q, Some r, Some t) \<Rightarrow>
          (case b64url_decode rest of
             None \<Rightarrow> None
           | Some bs \<Rightarrow>
               Some (char_of (p * 4 + q div 16) # char_of ((q mod 16) * 16 + r div 4)
                     # char_of ((r mod 4) * 64 + t) # bs))
      | _ \<Rightarrow> None)"

text \<open>
  Time. The clock is read in microseconds since the epoch (POSIX time). \<^verbatim>\<open>datetime.now()\<close>
  gives the reading as a naive local date and time; the model keeps it as the microseconds
  that the local wall clock shows, counted as if the wall clock were UTC: the reading plus
  the UTC offset in force at its second. \<^verbatim>\<open>timedelta(hours=h)\<close> is \<open>hours h\<close>, and
  subtracting it moves the wall-clock time, whatever the offsets are.
\<close>

definition hours :: "int \<Rightarrow> int" where
  "hours h = h * 3600 * 1000000"

definition local_datetime :: "env \<Rightarrow> int \<Rightarrow> int" where
  "local_datetime e n = n + utc_offset e (n div 1000000) * 1000000"

definition datetime_now :: "env \<Rightarrow> tester \<Rightarrow> int \<times> tester" where
  "datetime_now e s = (case now e s of (n, s1) \<Rightarrow> (local_datetime e n, s1))"

text \<open>
  \<^verbatim>\<open>d.timestamp()\<close> of a naive \<open>d\<close> is the library's \<^verbatim>\<open>_mktime\<close> on the whole seconds
  of \<open>d\<close>, plus the microseconds, as a float. \<^verbatim>\<open>_mktime\<close> looks for the POSIX second \<open>u\<close>
  whose local time is the wall-clock second \<open>t\<close>, with the platform's \<^verbatim>\<open>localtime\<close>:
  \<open>local_seconds e u\<close> is the helper \<^verbatim>\<open>local(u)\<close>, which raises where the platform does
  not convert \<open>u\<close>. The datetime that a subtraction returns has \<^verbatim>\<open>fold = 0\<close>, so the
  second guess \<open>u2\<close> is taken a day earlier and a time in a gap resolves to the larger of
  the two guesses.
\<close>

definition local_seconds :: "env \<Rightarrow> int \<Rightarrow> exn + int" where
  "local_seconds e u =
     (if mktime_ok e u then Inr (u + utc_offset e u)
      else Inl (Exn ''timestamp out of range for platform time_t''))"

text \<open>The end of \<^verbatim>\<open>_mktime\<close>, from \<^verbatim>\<open>u2 = t - b\<close> on.\<close>

definition mktime_second_guess :: "env \<Rightarrow> int \<Rightarrow> int \<Rightarrow> int \<Rightarrow> int \<Rightarrow> exn + int" where
  "mktime_second_guess e t u1 t1 b =
     (let u2 = t - b in
      case local_seconds e u2 of
        Inl ex \<Rightarrow> Inl ex
      | Inr t2 \<Rightarrow>
          if t2 = t then Inr u2
          else if t1 = t then Inr u1
          else Inr (max u1 u2))"

definition mktime :: "env \<Rightarrow> int \<Rightarrow> exn + int" where
  "mktime e t =
     (case local_seconds e t of
        Inl ex \<Rightarrow> Inl ex
      | Inr lt \<Rightarrow>
          (let a = lt - t; u1 = t - a in
           case local_seconds e u1 of
             Inl ex \<Rightarrow> Inl ex
           | Inr t1 \<Rightarrow>
               if t1 = t
               then (let u2 = u1 - 24 * 3600 in
                     case local_seconds e u2 of
                       Inl ex \<Rightarrow> Inl ex
                     | Inr lt2 \<Rightarrow>
                         (let b = lt2 - u2 in
                          if a = b then Inr u1 else mktime_second_guess e t u1 t1 b))
               else mktime_second_guess e t u1 t1 (t1 - u1)))"

text \<open>
  Floats are IEEE doubles, kept as the rationals they denote. \<open>to_double x\<close> is the double
  nearest to \<open>x\<close>, the even one of two that are equally near: with \<open>2 ^ k \<le> |x| < 2 ^ (k + 1)\<close>
  the doubles around \<open>x\<close> are the multiples of \<open>2 ^ (k - 52)\<close>. The values here are far
  inside the range of the normal doubles.
\<close>

function halvings :: "rat \<Rightarrow> nat" where
  "halvings x = (if 2 \<le> x then Suc (halvings (x / 2)) else 0)"
  by pat_completeness auto
termination
proof (relation "measure (\<lambda>x. nat \<lfloor>x\<rfloor>)")
  show "wf (measure (\<lambda>x::rat. nat \<lfloor>x\<rfloor>))" by simp
next
  fix x :: rat
  assume x: "2 \<le> x"
  have "\<lfloor>x / 2\<rfloor> < \<lfloor>x\<rfloor>"
    using x by (simp add: floor_less_iff) linarith
  moreover have "0 < \<lfloor>x\<rfloor>" using x by simp
  ultimately show "(x / 2, x) \<in> measure (\<lambda>x. nat \<lfloor>x\<rfloor>)" by simp
qed

function doublings :: "rat \<Rightarrow> nat" where
  "doublings x = (if 0 < x \<and> x < 1 then Suc (doublings (x * 2)) else 0)"
  by pat_completeness auto
termination
proof (relation "measure (\<lambda>x. nat \<lceil>1 / x\<rceil>)")
  show "wf (measure (\<lambda>x::rat. nat \<lceil>1 / x\<rceil>))" by simp
next
  fix x :: rat
  assume x: "0 < x \<and> x < 1"
  define y where "y = 1 / x"
  have y: "1 < y" using x by (simp add: y_def)
  have half: "1 / (x * 2) = y / 2" by (simp add: y_def)
  have "y \<le> of_int \<lceil>y\<rceil>" by (rule le_of_int_ceiling)
  moreover have "2 \<le> \<lceil>y\<rceil>"
    using y by (simp add: less_ceiling_iff [symmetric] flip: zless_iff_Suc_zadd)
  then have "(2::rat) \<le> of_int \<lceil>y\<rceil>" by (metis of_int_le_iff of_int_numeral)
  ultimately have "y / 2 \<le> of_int \<lceil>y\<rceil> - 1" by linarith
  then have "y / 2 \<le> of_int (\<lceil>y\<rceil> - 1)" by simp
  then have "\<lceil>y / 2\<rceil> \<le> \<lceil>y\<rceil> - 1" by (rule ceiling_le)
  moreover have "0 < \<lceil>y\<rceil>" using y by simp
  ultimately show "(x * 2, x) \<in> measure (\<lambda>x. nat \<lceil>1 / x\<rceil>)"
    by (simp add: half y_def [symmetric])
qed

declare halvings.simps [simp del] doublings.simps [simp del]

text \<open>For \<open>0 < x\<close>, the \<open>k\<close> with \<open>2 ^ k \<le> x < 2 ^ (k + 1)\<close>.\<close>

definition exponent2 :: "rat \<Rightarrow> int" where
  "exponent2 x = (if 1 \<le> x then int (halvings x) else - int (doublings x))"

definition pow2 :: "int \<Rightarrow> rat" where
  "pow2 k = (if 0 \<le> k then 2 ^ nat k else 1 / 2 ^ nat (- k))"

definition round_half_even :: "rat \<Rightarrow> int" where
  "round_half_even m =
     (let f = \<lfloor>m\<rfloor>; r = m - of_int f
      in if r < 1 / 2 then f else if 1 / 2 < r then f + 1 else if even f then f else f + 1)"

definition to_double :: "rat \<Rightarrow> rat" where
  "to_double x =
     (if x = 0 then 0
      else (let q = pow2 (exponent2 \<bar>x\<bar> - 52) in of_int (round_half_even (x / q)) * q))"

text \<open>
  \<^verbatim>\<open>s + self.microsecond / 1e6\<close>: the division and the sum are float operations, each
  rounded, and the integer \<open>s\<close> becomes a float first.
\<close>

definition dt_timestamp :: "env \<Rightarrow> int \<Rightarrow> exn + rat" where
  "dt_timestamp e d =
     (case mktime e (d div 1000000) of
        Inl ex \<Rightarrow> Inl ex
      | Inr s \<Rightarrow>
          Inr (to_double (to_double (of_int s)
                          + to_double (of_int (d mod 1000000) / 1000000))))"

text \<open>\<^verbatim>\<open>int(x)\<close> of a float truncates towards zero.\<close>

definition py_int :: "rat \<Rightarrow> int" where
  "py_int x = (if 0 \<le> x then \<lfloor>x\<rfloor> else \<lceil>x\<rceil>)"

definition token_header :: "(string \<times> jvalue) list" where
  "token_header = [(''alg'', JStr ''HS256''), (''typ'', JStr ''JWT'')]"

definition token_payload :: "int \<Rightarrow> int \<Rightarrow> (string \<times> jvalue) list" where
  "token_payload ex ia =
     [(''sub'', JStr ''test-user''),
      (''iss'', JStr ''http://localhost:8081/realms/eagle-dev''),
      (''exp'', JInt ex),
      (''iat'', JInt ia)]"

text \<open>
  The generator, lines 400-418. The two dictionaries are built in the order of the
  source: the time for \<open>exp\<close> is read and converted first, then the time for \<open>iat\<close>; an
  exception in either leaves the function through its handler, which returns \<open>None\<close>.
\<close>

definition generate_expired_token :: "env \<Rightarrow> tester \<Rightarrow> string option \<times> tester" where
  "generate_expired_token e s =
     (case datetime_now e s of (d1, s1) \<Rightarrow>
        (case dt_timestamp e (d1 - hours 1) of
           Inl ex \<Rightarrow> (None, s1)
         | Inr t1 \<Rightarrow>
             (case datetime_now e s1 of (d2, s2) \<Rightarrow>
                (case dt_timestamp e (d2 - hours 2) of
                   Inl ex \<Rightarrow> (None, s2)
                 | Inr t2 \<Rightarrow>
                     (let header = token_header;
                          payload = token_payload (py_int t1) (py_int t2);
                          header_b64 = rstrip CHR ''='' (urlsafe_b64encode (json_dumps header));
                          payload_b64 = rstrip CHR ''='' (urlsafe_b64encode (json_dumps payload));
                          signature = ''fake_signature''
                      in (Some (header_b64 @ ''.'' @ payload_b64 @ ''.'' @ signature), s2))))))"

subsection \<open>Authentication checks (lines 72-122)\<close>

text \<open>Test 1, lines 77-86: the status endpoint without a token.\<close>

definition auth_without_token :: "env \<Rightarrow> tester \<Rightarrow> tester" where
  "auth_without_token e s =
     (case send e (plain_get (status_url s) []) s of
        (Inl ex, s1) \<Rightarrow> log_result e ''Auth Without Token'' ''ERROR'' (str_exn ex) ''WARN'' s1
      | (Inr r, s1) \<Rightarrow>
          if status_code r = 401
          then log_result e ''Auth Without Token'' ''PASS'' ''Endpoint protegido corretamente'' ''PASS'' s1
          else log_result e ''Auth Without Token'' ''FAIL''
                 (''Endpoint n'' @ a_tilde @ ''o protegido (status: '' @ str_int (status_code r) @ '')'')
                 ''FAIL'' s1)"

text \<open>Test 2, lines 89-107: the body of the loop over the malformed tokens.\<close>

definition malformed_tokens :: "string list" where
  "malformed_tokens =
     [''invalid.jwt.token'', ''Bearer invalid'',
      ''eyJhbGciOiJIUzI1NiIsInR5cCI6IkpXVCJ9.invalid'', []]"

definition auth_malformed_token :: "env \<Rightarrow> string \<Rightarrow> tester \<Rightarrow> tester" where
  "auth_malformed_token e token s =
     (case send e (plain_get (status_url s) [(''Authorization'', ''Bearer '' @ token)]) s of
        (Inl ex, s1) \<Rightarrow> log_result e ''Malformed Token'' ''ERROR'' (str_exn ex) ''WARN'' s1
      | (Inr r, s1) \<Rightarrow>
          (let name = ''Malformed Token ('' @ take 20 token @ ''...)'' in
           if status_code r = 401
           then log_result e name ''PASS'' (''Token inv'' @ a_acute @ ''lido rejeitado'') ''PASS'' s1
           else log_result e name ''FAIL''
                  (''Token inv'' @ a_acute @ ''lido aceito (status: '' @ str_int (status_code r) @ '')'')
                  ''FAIL'' s1))"

text \<open>
  Test 3, lines 110-122. The generator returns \<open>None\<close> when it could not build the token,
  and the guard \<^verbatim>\<open>if expired_token:\<close> then skips the request; the handler of the step
  catches what the request raises.
\<close>

definition auth_expired_token :: "env \<Rightarrow> tester \<Rightarrow> tester" where
  "auth_expired_token e s =
     (case generate_expired_token e s of
        (None, s1) \<Rightarrow> s1
      | (Some expired_token, s1) \<Rightarrow>
          if expired_token = [] then s1
          else
            (case send e (plain_get (status_url s1)
                            [(''Authorization'', ''Bearer '' @ expired_token)]) s1 of
               (Inl ex, s2) \<Rightarrow>
                 log_result e ''Expired Token'' ''WARN''
                   (''N'' @ a_tilde @ ''o foi poss'' @ i_acute @ ''vel testar: '' @ str_exn ex) ''WARN'' s2
             | (Inr r, s2) \<Rightarrow>
                 if status_code r = 401
                 then log_result e ''Expired Token'' ''PASS'' ''Token expirado rejeitado'' ''PASS'' s2
                 else log_result e ''Expired Token'' ''FAIL''
                        (''Token expirado aceito (status: '' @ str_int (status_code r) @ '')'')
                        ''FAIL'' s2))"

definition test_authentication :: "env \<Rightarrow> tester \<Rightarrow> tester" where
  "test_authentication e s =
     auth_expired_token e (fold (auth_malformed_token e) malformed_tokens (auth_without_token e s))"

subsection \<open>Authorization checks (lines 124-149)\<close>

definition sensitive_endpoints :: "string list" where
  "sensitive_endpoints =
     [''/actuator/env'', ''/actuator/configprops'', ''/actuator/beans'', ''/actuator/heapdump'',
      ''/actuator/threaddump'', ''/admin/users'', ''/admin/config'']"

text \<open>The body of the loop, lines 140-149.\<close>

definition sensitive_endpoint_probe :: "env \<Rightarrow> string \<Rightarrow> tester \<Rightarrow> tester" where
  "sensitive_endpoint_probe e endpoint s =
     (let name = ''Sensitive Endpoint '' @ endpoint in
      case send e (session_get s (base_url s @ endpoint)) s of
        (Inl ex, s1) \<Rightarrow> log_result e name ''ERROR'' (str_exn ex) ''WARN'' s1
      | (Inr r, s1) \<Rightarrow>
          if status_code r \<in> set [401, 403, 404]
          then log_result e name ''PASS''
                 (''Endpoint protegido (status: '' @ str_int (status_code r) @ '')'') ''PASS'' s1
          else log_result e name ''FAIL''
                 (''Endpoint exposto (status: '' @ str_int (status_code r) @ '')'') ''FAIL'' s1)"

definition test_authorization :: "env \<Rightarrow> tester \<Rightarrow> tester" where
  "test_authorization e s = fold (sensitive_endpoint_probe e) sensitive_endpoints s"

subsection \<open>Security headers (lines 226-265)\<close>

text \<open>
  The table of required headers, in the order of the dictionary literal. The expected
  value is \<^verbatim>\<open>None\<close> (any value will do), a list of allowed values, or one exact value.
\<close>

datatype expected = AnyValue | OneOf "string list" | Exact string

definition required_headers :: "(string \<times> expected) list" where
  "required_headers =
     [(''X-Content-Type-Options'', Exact ''nosniff''),
      (''X-Frame-Options'', OneOf [''DENY'', ''SAMEORIGIN'']),
      (''X-XSS-Protection'', Exact ''1; mode=block''),
      (''Strict-Transport-Security'', AnyValue),
      (''Content-Security-Policy'', AnyValue)]"

text \<open>The body of the loop, lines 242-262.\<close>

definition security_header_check :: "env \<Rightarrow> response \<Rightarrow> string \<times> expected \<Rightarrow> tester \<Rightarrow> tester" where
  "security_header_check e r item s =
     (case item of (header, expected_value) \<Rightarrow>
        (let name = ''Security Header '' @ header in
         case header_get r header of
           None \<Rightarrow> log_result e name ''FAIL'' ''Header ausente'' ''FAIL'' s
         | Some actual_value \<Rightarrow>
             (case expected_value of
                AnyValue \<Rightarrow> log_result e name ''PASS'' (''Presente: '' @ actual_value) ''PASS'' s
              | OneOf allowed \<Rightarrow>
                  if actual_value \<in> set allowed
                  then log_result e name ''PASS'' (''Valor correto: '' @ actual_value) ''PASS'' s
                  else log_result e name ''WARN'' (''Valor inesperado: '' @ actual_value) ''WARN'' s
              | Exact v \<Rightarrow>
                  if actual_value = v
                  then log_result e name ''PASS'' (''Valor correto: '' @ actual_value) ''PASS'' s
                  else log_result e name ''WARN'' (''Valor incorreto: '' @ actual_value) ''WARN'' s)))"

definition test_security_headers :: "env \<Rightarrow> tester \<Rightarrow> tester" where
  "test_security_headers e s =
     (case send e (session_get s (status_url s)) s of
        (Inl ex, s1) \<Rightarrow> log_result e ''Security Headers Test'' ''ERROR'' (str_exn ex) ''WARN'' s1
      | (Inr r, s1) \<Rightarrow> fold (security_header_check e r) required_headers s1)"

subsection \<open>Rate limiting (lines 267-290)\<close>

text \<open>
  The loop of lines 274-277, \<open>n\<close> rounds to go: an exception leaves the loop at once, for
  the handler of line 289. The pause between two requests has no effect on the state.
\<close>

fun rate_limit_requests :: "env \<Rightarrow> nat \<Rightarrow> int list \<Rightarrow> tester \<Rightarrow> (exn + int list) \<times> tester" where
  "rate_limit_requests e 0 responses s = (Inr responses, s)"
| "rate_limit_requests e (Suc n) responses s =
     (case send e (session_get s (status_url s)) s of
        (Inl ex, s1) \<Rightarrow> (Inl ex, s1)
      | (Inr r, s1) \<Rightarrow> rate_limit_requests e n (responses @ [status_code r]) s1)"

definition test_rate_limiting :: "env \<Rightarrow> tester \<Rightarrow> tester" where
  "test_rate_limiting e s =
     (case rate_limit_requests e 50 [] s of
        (Inl ex, s1) \<Rightarrow> log_result e ''Rate Limiting Test'' ''ERROR'' (str_exn ex) ''WARN'' s1
      | (Inr responses, s1) \<Rightarrow>
          (let rate_limited = list_ex (\<lambda>st. st = 429) responses in
           if rate_limited
           then log_result e ''Rate Limiting'' ''PASS'' ''Rate limiting ativo'' ''PASS'' s1
           else log_result e ''Rate Limiting'' ''WARN''
                  (''Rate limiting n'' @ a_tilde @ ''o detectado'') ''WARN'' s1))"

subsection \<open>Information disclosure (lines 292-332)\<close>

definition info_endpoints :: "string list" where
  "info_endpoints =
     [''/actuator/info'', ''/actuator/health'', ''/actuator/metrics'', ''/swagger-ui.html'',
      ''/api-docs'', ''/error'', ''/debug'']"

definition sensitive_keywords :: "string list" where
  "sensitive_keywords =
     [''password'', ''secret'', ''key'', ''token'', ''credential'',
      ''database'', ''connection'', ''jdbc'', ''username'',
      ''stacktrace'', ''exception'', ''error'']"

text \<open>The body of the loop, lines 314-332.\<close>

definition info_endpoint_probe :: "env \<Rightarrow> string \<Rightarrow> tester \<Rightarrow> tester" where
  "info_endpoint_probe e endpoint s =
     (let name = ''Info Disclosure '' @ endpoint in
      case send e (plain_get (base_url s @ endpoint) []) s of
        (Inl ex, s1) \<Rightarrow> log_result e name ''ERROR'' (str_exn ex) ''WARN'' s1
      | (Inr r, s1) \<Rightarrow>
          if status_code r = 200
          then (let content = lower (text_body r);
                    found_sensitive = filter (\<lambda>kw. contains kw content) sensitive_keywords
                in if found_sensitive \<noteq> []
                   then log_result e name ''WARN''
                          (''Poss'' @ i_acute @ ''vel vazamento: '' @ join '', '' found_sensitive)
                          ''WARN'' s1
                   else log_result e name ''PASS''
                          (''Nenhuma informa'' @ c_cedil @ a_tilde @ ''o sens'' @ i_acute
                           @ ''vel detectada'') ''PASS'' s1)
          else log_result e name ''PASS''
                 (''Endpoint n'' @ a_tilde @ ''o acess'' @ i_acute @ ''vel (status: ''
                  @ str_int (status_code r) @ '')'') ''PASS'' s1)"

definition test_information_disclosure :: "env \<Rightarrow> tester \<Rightarrow> tester" where
  "test_information_disclosure e s = fold (info_endpoint_probe e) info_endpoints s"

subsection \<open>CORS (lines 334-367)\<close>

definition malicious_origins :: "string list" where
  "malicious_origins = [''http://evil.com'', ''https://attacker.com'', ''null'', ''*'']"

definition cors_request :: "tester \<Rightarrow> string \<Rightarrow> request" where
  "cors_request s origin =
     \<lparr>verb = ''OPTIONS'', url = base_url s @ ''/api/v1/alerts/create'',
      req_headers = [(''Origin'', origin), (''Access-Control-Request-Method'', ''POST''),
                     (''Access-Control-Request-Headers'', ''Authorization,Content-Type'')],
      json_body = [], allow_redirects = True\<rparr>"

text \<open>
  The loop of lines 347-364. One handler surrounds the whole loop, so an exception ends
  it and the origins that remain are not tried.
\<close>

fun cors_loop :: "env \<Rightarrow> string list \<Rightarrow> tester \<Rightarrow> exn option \<times> tester" where
  "cors_loop e [] s = (None, s)"
| "cors_loop e (origin # rest) s =
     (case send e (cors_request s origin) s of
        (Inl ex, s1) \<Rightarrow> (Some ex, s1)
      | (Inr r, s1) \<Rightarrow>
          (let cors_origin = header_get r ''Access-Control-Allow-Origin'';
               allowed = (case cors_origin of
                            None \<Rightarrow> None
                          | Some c \<Rightarrow> if c = origin \<or> c = ''*'' then Some c else None)
           in case allowed of
                Some c \<Rightarrow>
                  cors_loop e rest
                    (log_result e (''CORS Origin '' @ origin) ''FAIL''
                       (''Origem maliciosa permitida: '' @ c) ''FAIL'' s1)
              | None \<Rightarrow>
                  cors_loop e rest
                    (log_result e (''CORS Origin '' @ origin) ''PASS''
                       ''Origem maliciosa rejeitada'' ''PASS'' s1)))"

definition test_cors_configuration :: "env \<Rightarrow> tester \<Rightarrow> tester" where
  "test_cors_configuration e s =
     (case cors_loop e malicious_origins s of
        (None, s1) \<Rightarrow> s1
      | (Some ex, s1) \<Rightarrow>
          log_result e ''CORS Configuration Test'' ''ERROR'' (str_exn ex) ''WARN'' s1)"

subsection \<open>TLS (lines 369-396)\<close>

definition test_ssl_configuration :: "env \<Rightarrow> tester \<Rightarrow> tester" where
  "test_ssl_configuration e s =
     (if \<not> prefix ''https://'' (base_url s)
      then log_result e ''SSL Configuration'' ''WARN''
             (''Aplica'' @ c_cedil @ a_tilde @ ''o n'' @ a_tilde @ ''o est'' @ a_acute
              @ '' usando HTTPS'') ''WARN'' s
      else
        (let http_url = str_replace ''https://'' ''http://'' (base_url s) in
         case send e ((plain_get http_url [])\<lparr>allow_redirects := False\<rparr>) s of
           (Inl ex, s1) \<Rightarrow>
             log_result e ''SSL Configuration Test'' ''ERROR'' (str_exn ex) ''WARN'' s1
         | (Inr r, s1) \<Rightarrow>
             if status_code r \<in> set [301, 302, 307, 308]
             then (let location = (case header_get r ''Location'' of None \<Rightarrow> [] | Some l \<Rightarrow> l) in
                   if prefix ''https://'' location
                   then log_result e ''HTTP to HTTPS Redirect'' ''PASS''
                          ''Redirecionamento configurado'' ''PASS'' s1
                   else log_result e ''HTTP to HTTPS Redirect'' ''FAIL''
                          ''Redirecionamento incorreto'' ''FAIL'' s1)
             else log_result e ''HTTP to HTTPS Redirect'' ''FAIL''
                    (''Redirecionamento n'' @ a_tilde @ ''o configurado'') ''FAIL'' s1))"

subsection \<open>Report and driver (lines 420-487)\<close>

text \<open>
  \<open>generate_report\<close> counts the records by status, writes the whole list to a file named
  after the time, and returns whether no record failed.
\<close>

definition generate_report :: "env \<Rightarrow> tester \<Rightarrow> bool \<times> tester" where
  "generate_report e s =
     (let total_tests = length (results s);
          passed = length (filter (\<lambda>r. status r = ''PASS'') (results s));
          failed = length (filter (\<lambda>r. status r = ''FAIL'') (results s));
          warnings = length (filter (\<lambda>r. status r = ''WARN'') (results s));
          errors = length (filter (\<lambda>r. status r = ''ERROR'') (results s))
      in case now e s of (t, s1) \<Rightarrow>
           (failed = 0, s1\<lparr>files := files s1 @ [(t, results s1)]\<rparr>))"

text \<open>The eight checks in the order of \<open>run_all_tests\<close>, lines 464-471.\<close>

definition run_checks :: "env \<Rightarrow> tester \<Rightarrow> tester" where
  "run_checks e s =
     test_ssl_configuration e
       (test_cors_configuration e
          (test_information_disclosure e
             (test_rate_limiting e
                (test_security_headers e
                   (test_injection_attacks e
                      (test_authorization e
                         (test_authentication e s)))))))"

definition run_all_tests :: "env \<Rightarrow> tester \<Rightarrow> bool \<times> tester" where
  "run_all_tests e s = generate_report e (run_checks e s)"

text \<open>\<open>main\<close>: the exit code of the process, for the parsed arguments.\<close>

definition main :: "env \<Rightarrow> string \<Rightarrow> string option \<Rightarrow> int" where
  "main e target token =
     (let tester = init target token;
          success = fst (run_all_tests e tester)
      in if success then 0 else 1)"

subsection \<open>Predicates on the records of a run\<close>

text \<open>
  \<open>appends Q s s'\<close>: the results of \<open>s'\<close> are those of \<open>s\<close>, unchanged and in the same
  order, followed by new records that all satisfy \<open>Q\<close>.
\<close>

definition appends :: "(result \<Rightarrow> bool) \<Rightarrow> tester \<Rightarrow> tester \<Rightarrow> bool" where
  "appends Q s s' = (\<exists>new. results s' = results s @ new \<and> list_all Q new)"

text \<open>
  What holds of every record: one with status \<open>ERROR\<close> has severity \<open>WARN\<close>; and in a
  run where no request gets a response (\<open>quiet\<close>) its status is not \<open>FAIL\<close>.
\<close>

definition record_ok :: "bool \<Rightarrow> result \<Rightarrow> bool" where
  "record_ok quiet r =
     ((status r = ''ERROR'' \<longrightarrow> severity r = ''WARN'') \<and> (quiet \<longrightarrow> status r \<noteq> ''FAIL''))"

subsection \<open>Sample environments\<close>

text \<open>A clock that advances by one microsecond per reading. The sample platforms are on UTC.\<close>

definition sample_clock :: "nat \<Rightarrow> int" where
  "sample_clock k = 1700000000000000 + int k"

text \<open>A target that refuses every connection.\<close>

definition refusing_env :: env where
  "refusing_env = \<lparr>net = (\<lambda>k rq. Inl (Exn ''Connection refused'')), clock = sample_clock,
                    mktime_ok = (\<lambda>u. True), utc_offset = (\<lambda>u. 0)\<rparr>"

text \<open>A target that answers every request with the same response.\<close>

definition answering_env :: "response \<Rightarrow> env" where
  "answering_env r = \<lparr>net = (\<lambda>k rq. Inr r), clock = sample_clock, mktime_ok = (\<lambda>u. True), utc_offset = (\<lambda>u. 0)\<rparr>"

text \<open>The same target on a platform whose time conversion fails.\<close>

definition broken_clock_env :: "response \<Rightarrow> env" where
  "broken_clock_env r = \<lparr>net = (\<lambda>k rq. Inr r), clock = sample_clock, mktime_ok = (\<lambda>u. False), utc_offset = (\<lambda>u. 0)\<rparr>"

definition plain_response :: "int \<Rightarrow> response" where
  "plain_response code = \<lparr>status_code = code, headers = [], text_body = []\<rparr>"

text \<open>
  Two platforms at the second 1711846800 (2024-03-31 01:00:00 UTC), when summer time
  begins: one with the offsets of Europe/Lisbon on that day, from 0 to one hour, and one
  with the offsets of Antarctica/Troll, from 0 to two hours.
\<close>

definition lisbon_offset :: "int \<Rightarrow> int" where
  "lisbon_offset u = (if u < 1711846800 then 0 else 3600)"

definition troll_offset :: "int \<Rightarrow> int" where
  "troll_offset u = (if u < 1711846800 then 0 else 7200)"

definition summer_time_env :: "(int \<Rightarrow> int) \<Rightarrow> env" where
  "summer_time_env offset =
     \<lparr>net = (\<lambda>k rq. Inr (plain_response 401)), clock = (\<lambda>k. 1711846800000000 + int k),
      mktime_ok = (\<lambda>u. True), utc_offset = offset\<rparr>"

definition sample_tester :: tester where
  "sample_tester = init ''https://eagle.example/'' None"

section \<open>Properties\<close>

subsection \<open>The string functions\<close>

text \<open>
  \<open>contains\<close> is the substring relation, and the serialisers give the texts that the
  Python library gives on the same values.
\<close>

lemma contains_iff_sublist: "contains needle haystack = sublist needle haystack"
  by (induction haystack) (auto simp: sublist_Cons_right)

lemma str_int_examples:
  "str_int 1699996400 = ''1699996400''" "str_int (- 401) = ''-401''" "str_int 0 = ''0''"
  by (simp_all add: str_int_def str_nat.simps digit_char_def)

lemma token_header_segment:
  "rstrip CHR ''='' (urlsafe_b64encode (json_dumps token_header))
     = ''eyJhbGciOiAiSFMyNTYiLCAidHlwIjogIkpXVCJ9''"
  by code_simp

lemma token_payload_json:
  "json_dumps (token_payload 1699996400 1699992800) =
     ''{'' @ [CHR 0x22] @ ''sub'' @ [CHR 0x22] @ '': '' @ [CHR 0x22] @ ''test-user'' @ [CHR 0x22]
     @ '', '' @ [CHR 0x22] @ ''iss'' @ [CHR 0x22] @ '': '' @ [CHR 0x22]
     @ ''http://localhost:8081/realms/eagle-dev'' @ [CHR 0x22]
     @ '', '' @ [CHR 0x22] @ ''exp'' @ [CHR 0x22] @ '': 1699996400''
     @ '', '' @ [CHR 0x22] @ ''iat'' @ [CHR 0x22] @ '': 1699992800}''"
  by (simp add: json_dumps_def token_payload_def json_string_def str_int_def str_nat.simps
        digit_char_def)

subsection \<open>Every operation appends records\<close>

lemma log_result_results [simp]:
  "results (log_result e n st d sev s) =
     results s @ [\<lparr>timestamp = clock e (ticks s), test = n, status = st, details = d, severity = sev\<rparr>]"
  by (simp add: log_result_def now_def)

lemma log_result_frame [simp]:
  "sent (log_result e n st d sev s) = sent s"
  "base_url (log_result e n st d sev s) = base_url s"
  "session_headers (log_result e n st d sev s) = session_headers s"
  "auth_token (log_result e n st d sev s) = auth_token s"
  "files (log_result e n st d sev s) = files s"
  "ticks (log_result e n st d sev s) = Suc (ticks s)"
  by (simp_all add: log_result_def now_def)

lemma appends_refl: "appends Q s s"
  by (simp add: appends_def)

lemma appends_trans [trans]: "appends Q s s' \<Longrightarrow> appends Q s' s'' \<Longrightarrow> appends Q s s''"
  by (auto simp: appends_def)

lemma appends_results_eq: "results s' = results s \<Longrightarrow> appends Q s s'"
  by (simp add: appends_def)

lemma appends_log:
  "Q \<lparr>timestamp = clock e (ticks s'), test = n, status = st, details = d, severity = sev\<rparr> \<Longrightarrow>
   results s' = results s \<Longrightarrow> appends Q s (log_result e n st d sev s')"
  by (simp add: appends_def)

lemma appends_fold:
  "(\<And>x t. appends Q t (f x t)) \<Longrightarrow> appends Q s (fold f xs s)"
proof (induction xs arbitrary: s)
  case Nil
  show ?case by (simp add: appends_refl)
next
  case (Cons x xs)
  have "appends Q s (f x s)" by (rule Cons.prems)
  moreover have "appends Q (f x s) (fold f xs (f x s))" by (rule Cons.IH) (rule Cons.prems)
  ultimately show ?case by (simp add: appends_trans)
qed

lemma no_response: "\<forall>k rq. isl (net e k rq) \<Longrightarrow> net e k rq = Inr r \<Longrightarrow> False"
  by (metis sum.disc(2))

lemma appends_auth_without_token:
  assumes "quiet \<longrightarrow> (\<forall>k rq. isl (net e k rq))"
  shows "appends (record_ok quiet) s (auth_without_token e s)"
  using assms
  by (auto simp: auth_without_token_def send_def record_ok_def split: sum.splits
           intro!: appends_log dest: no_response)

lemma appends_auth_malformed_token:
  assumes "quiet \<longrightarrow> (\<forall>k rq. isl (net e k rq))"
  shows "appends (record_ok quiet) s (auth_malformed_token e tok s)"
  using assms
  by (auto simp: auth_malformed_token_def send_def record_ok_def Let_def split: sum.splits
           intro!: appends_log dest: no_response)

lemma generate_expired_token_results [simp]:
  "results (snd (generate_expired_token e s)) = results s"
  by (simp add: generate_expired_token_def datetime_now_def now_def Let_def split: sum.splits)

lemma generate_expired_token_frame [simp]:
  "sent (snd (generate_expired_token e s)) = sent s"
  "base_url (snd (generate_expired_token e s)) = base_url s"
  "session_headers (snd (generate_expired_token e s)) = session_headers s"
  by (simp_all add: generate_expired_token_def datetime_now_def now_def Let_def split: sum.splits)

lemma mktime_returns: "\<forall>u. mktime_ok e u \<Longrightarrow> \<exists>u. mktime e t = Inr u"
  by (simp add: mktime_def mktime_second_guess_def local_seconds_def Let_def)

lemma dt_timestamp_returns: "\<forall>u. mktime_ok e u \<Longrightarrow> \<exists>x. dt_timestamp e d = Inr x"
  using mktime_returns [of e "d div 1000000"] by (auto simp: dt_timestamp_def)

lemma generate_expired_token_returns:
  assumes "\<forall>u. mktime_ok e u"
  shows "\<exists>tok. fst (generate_expired_token e s) = Some tok"
proof -
  obtain t1 where "dt_timestamp e (local_datetime e (clock e (ticks s)) - hours 1) = Inr t1"
    using dt_timestamp_returns [OF assms] by blast
  moreover obtain t2 where
    "dt_timestamp e (local_datetime e (clock e (Suc (ticks s))) - hours 2) = Inr t2"
    using dt_timestamp_returns [OF assms] by blast
  ultimately show ?thesis
    by (simp add: generate_expired_token_def datetime_now_def now_def Let_def)
qed

lemma appends_auth_expired_token:
  assumes "quiet \<longrightarrow> (\<forall>k rq. isl (net e k rq))"
  shows "appends (record_ok quiet) s (auth_expired_token e s)"
proof (cases "generate_expired_token e s")
  case (Pair tok s1)
  then have r1: "results s1 = results s"
    using generate_expired_token_results [of e s] by simp
  show ?thesis
  proof (cases tok)
    case None
    with Pair r1 show ?thesis by (simp add: auth_expired_token_def appends_def)
  next
    case (Some t)
    show ?thesis
    proof (cases "t = []")
      case True
      with Pair Some r1 show ?thesis by (simp add: auth_expired_token_def appends_def)
    next
      case False
      with Pair Some r1 assms show ?thesis
        by (auto simp: auth_expired_token_def send_def record_ok_def split: sum.splits
                 intro!: appends_log dest: no_response)
    qed
  qed
qed

lemma appends_test_authentication:
  assumes "quiet \<longrightarrow> (\<forall>k rq. isl (net e k rq))"
  shows "appends (record_ok quiet) s (test_authentication e s)"
proof -
  let ?s1 = "auth_without_token e s"
  let ?s2 = "fold (auth_malformed_token e) malformed_tokens ?s1"
  have "appends (record_ok quiet) s ?s1"
    by (rule appends_auth_without_token [OF assms])
  moreover have "appends (record_ok quiet) ?s1 ?s2"
    by (rule appends_fold) (rule appends_auth_malformed_token [OF assms])
  moreover have "appends (record_ok quiet) ?s2 (auth_expired_token e ?s2)"
    by (rule appends_auth_expired_token [OF assms])
  ultimately show ?thesis
    unfolding test_authentication_def by (blast intro: appends_trans)
qed

lemma appends_sensitive_endpoint_probe:
  assumes "quiet \<longrightarrow> (\<forall>k rq. isl (net e k rq))"
  shows "appends (record_ok quiet) s (sensitive_endpoint_probe e ep s)"
  using assms
  by (auto simp: sensitive_endpoint_probe_def send_def record_ok_def Let_def split: sum.splits
           intro!: appends_log dest: no_response)

lemma appends_test_authorization:
  assumes "quiet \<longrightarrow> (\<forall>k rq. isl (net e k rq))"
  shows "appends (record_ok quiet) s (test_authorization e s)"
  unfolding test_authorization_def
  by (rule appends_fold) (rule appends_sensitive_endpoint_probe [OF assms])

lemma appends_test_injection_payload:
  assumes "quiet \<longrightarrow> (\<forall>k rq. isl (net e k rq))"
  shows "appends (record_ok quiet) s (test_injection_payload e a p f s)"
  using assms
  by (auto simp: test_injection_payload_def send_def record_ok_def Let_def split: sum.splits
           intro!: appends_log dest: no_response)

lemma appends_test_injection_attacks:
  assumes "quiet \<longrightarrow> (\<forall>k rq. isl (net e k rq))"
  shows "appends (record_ok quiet) s (test_injection_attacks e s)"
proof -
  have step: "\<And>a xs t. appends (record_ok quiet) t
                 (fold (\<lambda>payload. test_injection_payload e a payload ''customerDocument'') xs t)"
    by (rule appends_fold) (rule appends_test_injection_payload [OF assms])
  show ?thesis
    unfolding test_injection_attacks_def Let_def
    by (rule appends_trans [OF appends_trans [OF step step] step])
qed

lemma appends_security_header_check:
  "appends (record_ok False) s (security_header_check e r item s)"
  by (cases item)
     (auto simp: security_header_check_def record_ok_def Let_def
           split: option.splits expected.splits intro!: appends_log)

lemma appends_test_security_headers:
  assumes "quiet \<longrightarrow> (\<forall>k rq. isl (net e k rq))"
  shows "appends (record_ok quiet) s (test_security_headers e s)"
proof (cases "net e (length (sent s)) (session_get s (status_url s))")
  case (Inl ex)
  then show ?thesis
    by (auto simp: test_security_headers_def send_def record_ok_def intro!: appends_log)
next
  case (Inr r)
  with assms have nq: "\<not> quiet" by (auto dest: no_response)
  let ?s1 = "s\<lparr>sent := sent s @ [session_get s (status_url s)]\<rparr>"
  have "appends (record_ok False) ?s1 (fold (security_header_check e r) required_headers ?s1)"
    by (rule appends_fold) (rule appends_security_header_check)
  moreover have "appends (record_ok False) s ?s1"
    by (simp add: appends_def)
  ultimately have "appends (record_ok False) s (fold (security_header_check e r) required_headers ?s1)"
    by (rule appends_trans [rotated])
  with Inr nq show ?thesis
    by (simp add: test_security_headers_def send_def)
qed

lemma rate_limit_requests_results [simp]:
  "results (snd (rate_limit_requests e n acc s)) = results s"
  by (induction n arbitrary: acc s) (auto simp: send_def split: sum.splits)

lemma rate_limit_requests_quiet:
  "\<forall>k rq. isl (net e k rq) \<Longrightarrow> 0 < n \<Longrightarrow> isl (fst (rate_limit_requests e n acc s))"
  by (cases n) (auto simp: send_def split: sum.splits dest: no_response)

lemma appends_test_rate_limiting:
  assumes "quiet \<longrightarrow> (\<forall>k rq. isl (net e k rq))"
  shows "appends (record_ok quiet) s (test_rate_limiting e s)"
proof (cases "rate_limit_requests e 50 [] s")
  case (Pair out s1)
  then have r1: "results s1 = results s"
    using rate_limit_requests_results [of e 50 "[]" s] by simp
  show ?thesis
  proof (cases out)
    case (Inl ex)
    with Pair r1 show ?thesis
      by (auto simp: test_rate_limiting_def record_ok_def intro!: appends_log)
  next
    case (Inr responses)
    have "\<not> quiet"
    proof
      assume quiet
      with assms have "\<forall>k rq. isl (net e k rq)" by simp
      then have "isl (fst (rate_limit_requests e 50 [] s))"
        by (rule rate_limit_requests_quiet) simp
      with Pair Inr show False by simp
    qed
    with Pair Inr r1 show ?thesis
      by (auto simp: test_rate_limiting_def record_ok_def Let_def intro!: appends_log)
  qed
qed

lemma appends_info_endpoint_probe:
  assumes "quiet \<longrightarrow> (\<forall>k rq. isl (net e k rq))"
  shows "appends (record_ok quiet) s (info_endpoint_probe e ep s)"
  using assms
  by (auto simp: info_endpoint_probe_def send_def record_ok_def Let_def split: sum.splits
           intro!: appends_log dest: no_response)

lemma appends_test_information_disclosure:
  assumes "quiet \<longrightarrow> (\<forall>k rq. isl (net e k rq))"
  shows "appends (record_ok quiet) s (test_information_disclosure e s)"
  unfolding test_information_disclosure_def
  by (rule appends_fold) (rule appends_info_endpoint_probe [OF assms])

lemma appends_cors_loop:
  assumes "quiet \<longrightarrow> (\<forall>k rq. isl (net e k rq))"
  shows "appends (record_ok quiet) s (snd (cors_loop e origins s))"
  using assms
proof (induction origins arbitrary: s)
  case Nil
  show ?case by (simp add: appends_refl)
next
  case (Cons origin rest)
  show ?case
  proof (cases "net e (length (sent s)) (cors_request s origin)")
    case (Inl ex)
    then show ?thesis by (simp add: send_def appends_def)
  next
    case (Inr r)
    with Cons.prems have nq: "\<not> quiet" by (auto dest: no_response)
    let ?s1 = "s\<lparr>sent := sent s @ [cors_request s origin]\<rparr>"
    have fail: "\<And>n d. appends (record_ok quiet) s (log_result e n ''FAIL'' d ''FAIL'' ?s1)"
      using nq by (auto simp: record_ok_def intro!: appends_log)
    have pass: "\<And>n d. appends (record_ok quiet) s (log_result e n ''PASS'' d ''PASS'' ?s1)"
      by (auto simp: record_ok_def intro!: appends_log)
    note ih = Cons.IH [OF Cons.prems]
    from Inr show ?thesis
      by (auto simp: send_def Let_def split: option.splits
               intro: appends_trans [OF fail ih] appends_trans [OF pass ih])
  qed
qed

lemma appends_test_cors_configuration:
  assumes "quiet \<longrightarrow> (\<forall>k rq. isl (net e k rq))"
  shows "appends (record_ok quiet) s (test_cors_configuration e s)"
proof (cases "cors_loop e malicious_origins s")
  case (Pair out s1)
  then have "appends (record_ok quiet) s s1"
    using appends_cors_loop [OF assms, of s malicious_origins] by simp
  moreover have "\<And>ex. appends (record_ok quiet) s1
                   (log_result e ''CORS Configuration Test'' ''ERROR'' (str_exn ex) ''WARN'' s1)"
    by (auto simp: record_ok_def intro!: appends_log)
  ultimately show ?thesis
    using Pair by (auto simp: test_cors_configuration_def split: option.splits intro: appends_trans)
qed

lemma appends_test_ssl_configuration:
  assumes "quiet \<longrightarrow> (\<forall>k rq. isl (net e k rq))"
  shows "appends (record_ok quiet) s (test_ssl_configuration e s)"
  using assms
  by (auto simp: test_ssl_configuration_def send_def record_ok_def Let_def split: sum.splits
           intro!: appends_log dest: no_response)

lemma appends_run_checks:
  assumes "quiet \<longrightarrow> (\<forall>k rq. isl (net e k rq))"
  shows "appends (record_ok quiet) s (run_checks e s)"
proof -
  let ?s1 = "test_authentication e s"
  let ?s2 = "test_authorization e ?s1"
  let ?s3 = "test_injection_attacks e ?s2"
  let ?s4 = "test_security_headers e ?s3"
  let ?s5 = "test_rate_limiting e ?s4"
  let ?s6 = "test_information_disclosure e ?s5"
  let ?s7 = "test_cors_configuration e ?s6"
  have "appends (record_ok quiet) s ?s1" by (rule appends_test_authentication [OF assms])
  also have "appends (record_ok quiet) ?s1 ?s2" by (rule appends_test_authorization [OF assms])
  also have "appends (record_ok quiet) ?s2 ?s3" by (rule appends_test_injection_attacks [OF assms])
  also have "appends (record_ok quiet) ?s3 ?s4" by (rule appends_test_security_headers [OF assms])
  also have "appends (record_ok quiet) ?s4 ?s5" by (rule appends_test_rate_limiting [OF assms])
  also have "appends (record_ok quiet) ?s5 ?s6" by (rule appends_test_information_disclosure [OF assms])
  also have "appends (record_ok quiet) ?s6 ?s7" by (rule appends_test_cors_configuration [OF assms])
  also have "appends (record_ok quiet) ?s7 (test_ssl_configuration e ?s7)"
    by (rule appends_test_ssl_configuration [OF assms])
  finally show ?thesis by (simp add: run_checks_def)
qed

lemma appends_prefix: "appends Q s s' \<Longrightarrow> prefix (results s) (results s')"
  by (auto simp: appends_def)

lemma appends_all:
  "appends Q s s' \<Longrightarrow> \<forall>r \<in> set (results s). Q r \<Longrightarrow> \<forall>r \<in> set (results s'). Q r"
  by (auto simp: appends_def list_all_iff)

lemma init_results [simp]: "results (init target token) = []"
  by (simp add: init_def Let_def)

lemma generate_report_value:
  "fst (generate_report e s) = (\<forall>r \<in> set (results s). status r \<noteq> ''FAIL'')"
  by (simp add: generate_report_def now_def Let_def filter_empty_conv)

lemma generate_report_state:
  "snd (generate_report e s) =
     s\<lparr>ticks := Suc (ticks s), files := files s @ [(clock e (ticks s), results s)]\<rparr>"
  by (simp add: generate_report_def now_def Let_def)

subsection \<open>The report and the exit code\<close>

text \<open>
  Claim C1. \<open>generate_report\<close> returns true if and only if no record of the results list
  has status \<open>FAIL\<close>; records with status \<open>WARN\<close> or \<open>ERROR\<close> do not matter (taking all of
  them away leaves the returned value as it is); and the exit code of the process is 0
  when \<open>generate_report\<close>, called after the eight checks, returns true, and 1 otherwise.
\<close>

theorem generate_report_exit_code:
  "fst (generate_report e s) = (\<forall>r \<in> set (results s). status r \<noteq> ''FAIL'')
   \<and> fst (generate_report e s) =
       fst (generate_report e
              (s\<lparr>results := filter (\<lambda>r. status r \<noteq> ''WARN'' \<and> status r \<noteq> ''ERROR'') (results s)\<rparr>))
   \<and> main e target token =
       (if fst (generate_report e (run_checks e (init target token))) then 0 else 1)"
  by (auto simp: generate_report_value main_def run_all_tests_def Let_def)

theorem generate_report_exit_code_witness:
  "fst (generate_report refusing_env (log_result refusing_env ''Probe'' ''ERROR'' ''refused'' ''WARN'' sample_tester))
   \<and> \<not> fst (generate_report refusing_env (log_result refusing_env ''Probe'' ''FAIL'' ''open'' ''FAIL'' sample_tester))"
  using generate_report_exit_code [of refusing_env
          "log_result refusing_env ''Probe'' ''ERROR'' ''refused'' ''WARN'' sample_tester"]
        generate_report_exit_code [of refusing_env
          "log_result refusing_env ''Probe'' ''FAIL'' ''open'' ''FAIL'' sample_tester"]
  by (simp add: sample_tester_def)

subsection \<open>Classification of an injection payload\<close>

text \<open>
  Claim C4. When the request of an injection payload gets a response, exactly one record
  is appended, and its status is \<open>PASS\<close> for the status codes 400 and 422, \<open>WARN\<close> for 200
  with one of the keywords \<open>error\<close>, \<open>exception\<close>, \<open>stack\<close> in the lower-cased body, \<open>FAIL\<close>
  for 200 without any of them, and \<open>INFO\<close> for every other status code.
\<close>

theorem injection_classification:
  assumes "net e (length (sent s)) (injection_request s field payload) = Inr r"
  shows "\<exists>rec. results (test_injection_payload e attack_type payload field s) = results s @ [rec]
           \<and> status rec =
               (if status_code r = 400 \<or> status_code r = 422 then ''PASS''
                else if status_code r = 200
                then (if contains ''error'' (lower (text_body r))
                         \<or> contains ''exception'' (lower (text_body r))
                         \<or> contains ''stack'' (lower (text_body r))
                      then ''WARN'' else ''FAIL'')
                else ''INFO'')"
  using assms by (simp add: test_injection_payload_def send_def injection_keywords_def Let_def)

theorem injection_classification_witness:
  "\<exists>rec. results (test_injection_payload (answering_env (plain_response 400)) ''XSS''
                    ''<svg onload=alert(1)>'' ''customerDocument'' sample_tester) = [rec]
         \<and> status rec = ''PASS''"
  using injection_classification [of "answering_env (plain_response 400)" sample_tester
          "''customerDocument''" "''<svg onload=alert(1)>''" "plain_response 400" "''XSS''"]
  by (simp add: answering_env_def plain_response_def sample_tester_def)

subsection \<open>The results list only grows\<close>

text \<open>
  Claim C9. The results list is append-only: after \<open>log_result\<close>, after each of the checks
  and after the whole run, the old list is a prefix of the new one (so no record was removed,
  changed or moved); building the token and writing the report leave the list as it is; and
  the report file holds the list in its order.
\<close>

theorem results_append_only:
  "prefix (results s) (results (log_result e n st d sev s))
   \<and> prefix (results s) (results (test_authentication e s))
   \<and> prefix (results s) (results (test_authorization e s))
   \<and> prefix (results s) (results (test_injection_payload e a p f s))
   \<and> prefix (results s) (results (test_injection_attacks e s))
   \<and> prefix (results s) (results (test_security_headers e s))
   \<and> prefix (results s) (results (test_rate_limiting e s))
   \<and> prefix (results s) (results (test_information_disclosure e s))
   \<and> prefix (results s) (results (test_cors_configuration e s))
   \<and> prefix (results s) (results (test_ssl_configuration e s))
   \<and> results (snd (generate_expired_token e s)) = results s
   \<and> results (snd (generate_report e s)) = results s
   \<and> files (snd (generate_report e s)) = files s @ [(clock e (ticks s), results s)]
   \<and> prefix (results s) (results (snd (run_all_tests e s)))
   \<and> snd (last (files (snd (run_all_tests e s)))) = results (snd (run_all_tests e s))"
proof -
  have q: "False \<longrightarrow> (\<forall>k rq. isl (net e k rq))" by simp
  have "prefix (results s) (results (run_checks e s))"
    by (rule appends_prefix [OF appends_run_checks [OF q]])
  then have "prefix (results s) (results (snd (run_all_tests e s)))"
    by (simp add: run_all_tests_def generate_report_state)
  moreover have "snd (last (files (snd (run_all_tests e s)))) = results (snd (run_all_tests e s))"
    by (simp add: run_all_tests_def generate_report_state)
  ultimately show ?thesis
    using appends_prefix [OF appends_test_authentication [OF q]]
          appends_prefix [OF appends_test_authorization [OF q]]
          appends_prefix [OF appends_test_injection_payload [OF q]]
          appends_prefix [OF appends_test_injection_attacks [OF q]]
          appends_prefix [OF appends_test_security_headers [OF q]]
          appends_prefix [OF appends_test_rate_limiting [OF q]]
          appends_prefix [OF appends_test_information_disclosure [OF q]]
          appends_prefix [OF appends_test_cors_configuration [OF q]]
          appends_prefix [OF appends_test_ssl_configuration [OF q]]
    by (simp add: generate_report_state)
qed

subsection \<open>Exceptions are never failures\<close>

text \<open>
  Claim C10. Every record of a run with status \<open>ERROR\<close> has severity \<open>WARN\<close>; and when every
  request of the run raises an exception, no record has status \<open>FAIL\<close>, so \<open>generate_report\<close>
  returns true and the process exits with code 0.
\<close>

theorem error_records_are_warnings:
  "(\<forall>r \<in> set (results (run_checks e (init target token))).
       status r = ''ERROR'' \<longrightarrow> severity r = ''WARN'')
   \<and> ((\<forall>k rq. \<exists>ex. net e k rq = Inl ex) \<longrightarrow>
        (\<forall>r \<in> set (results (run_checks e (init target token))). status r \<noteq> ''FAIL'')
        \<and> fst (run_all_tests e (init target token))
        \<and> main e target token = 0)"
proof -
  let ?s = "run_checks e (init target token)"
  have all: "\<And>quiet. quiet \<longrightarrow> (\<forall>k rq. isl (net e k rq)) \<Longrightarrow> \<forall>r \<in> set (results ?s). record_ok quiet r"
    by (rule appends_all [OF appends_run_checks]) simp_all
  have "\<forall>r \<in> set (results ?s). record_ok False r"
    by (rule all) simp
  then have first: "\<forall>r \<in> set (results ?s). status r = ''ERROR'' \<longrightarrow> severity r = ''WARN''"
    by (simp add: record_ok_def)
  have second: "\<forall>r \<in> set (results ?s). status r \<noteq> ''FAIL''"
    if refused: "\<forall>k rq. \<exists>ex. net e k rq = Inl ex"
  proof -
    have "\<forall>k rq. isl (net e k rq)"
      using refused by (metis sum.disc(1))
    then have "\<forall>r \<in> set (results ?s). record_ok True r"
      by (intro all) simp
    then show ?thesis by (simp add: record_ok_def)
  qed
  show ?thesis
    using first second
    by (auto simp: main_def run_all_tests_def generate_report_value Let_def)
qed

theorem error_records_are_warnings_witness:
  "fst (run_all_tests refusing_env (init ''https://eagle.example/'' None))
   \<and> main refusing_env ''https://eagle.example/'' None = 0"
  using error_records_are_warnings [of refusing_env "''https://eagle.example/''" None]
  by (simp add: refusing_env_def)

subsection \<open>Classification of the sensitive endpoints\<close>

lemma sensitive_endpoint_probe_frame [simp]:
  "sent (sensitive_endpoint_probe e ep s) = sent s @ [session_get s (base_url s @ ep)]"
  "base_url (sensitive_endpoint_probe e ep s) = base_url s"
  "session_headers (sensitive_endpoint_probe e ep s) = session_headers s"
  by (simp_all add: sensitive_endpoint_probe_def send_def Let_def split: sum.splits)

lemma session_get_cong:
  "session_headers s' = session_headers s \<Longrightarrow> session_get s' u = session_get s u"
  by (simp add: session_get_def)

lemma sensitive_endpoint_probe_results:
  "\<exists>rec. results (sensitive_endpoint_probe e ep s) = results s @ [rec]
     \<and> (\<forall>r. net e (length (sent s)) (session_get s (base_url s @ ep)) = Inr r \<longrightarrow>
            status rec = (if status_code r \<in> {401, 403, 404} then ''PASS'' else ''FAIL''))"
  by (auto simp: sensitive_endpoint_probe_def send_def Let_def split: sum.splits)

lemma sensitive_endpoint_loop_length:
  "length (results (fold (sensitive_endpoint_probe e) eps s)) = length (results s) + length eps"
proof (induction eps arbitrary: s)
  case Nil
  show ?case by simp
next
  case (Cons ep eps)
  obtain rec where "results (sensitive_endpoint_probe e ep s) = results s @ [rec]"
    using sensitive_endpoint_probe_results [of e ep s] by blast
  then show ?case by (simp add: Cons.IH)
qed

lemma sensitive_endpoint_loop_status:
  "i < length eps \<Longrightarrow>
   net e (length (sent s) + i) (session_get s (base_url s @ eps ! i)) = Inr r \<Longrightarrow>
   status (results (fold (sensitive_endpoint_probe e) eps s) ! (length (results s) + i)) =
     (if status_code r \<in> {401, 403, 404} then ''PASS'' else ''FAIL'')"
proof (induction eps arbitrary: s i)
  case Nil
  then show ?case by simp
next
  case (Cons ep eps)
  let ?s1 = "sensitive_endpoint_probe e ep s"
  obtain rec where rec: "results ?s1 = results s @ [rec]"
    and st: "\<forall>r. net e (length (sent s)) (session_get s (base_url s @ ep)) = Inr r \<longrightarrow>
               status rec = (if status_code r \<in> {401, 403, 404} then ''PASS'' else ''FAIL'')"
    using sensitive_endpoint_probe_results [of e ep s] by blast
  have sg: "\<And>u. session_get ?s1 u = session_get s u"
    by (rule session_get_cong) simp
  show ?case
  proof (cases i)
    case 0
    have "prefix (results ?s1) (results (fold (sensitive_endpoint_probe e) eps ?s1))"
      by (rule appends_prefix [OF appends_fold [where Q = "record_ok False"]])
         (rule appends_sensitive_endpoint_probe, simp)
    then obtain more where "results (fold (sensitive_endpoint_probe e) eps ?s1) = results s @ [rec] @ more"
      using rec by (auto simp: prefix_def)
    with 0 Cons.prems st show ?thesis by (simp add: nth_append)
  next
    case (Suc j)
    with Cons.prems have "j < length eps"
      and "net e (length (sent ?s1) + j) (session_get ?s1 (base_url ?s1 @ eps ! j)) = Inr r"
      by (simp_all add: sg)
    from Cons.IH [OF this] rec Suc show ?thesis by simp
  qed
qed

text \<open>
  Claim C5. The authorization check appends one record per sensitive endpoint, in the order
  of the list. When the request for the i-th endpoint gets a response, the i-th new record
  has status \<open>PASS\<close> for the status codes 401, 403 and 404, and status \<open>FAIL\<close> for every
  status code from 200 to 299.
\<close>

theorem authorization_classification:
  assumes "i < length sensitive_endpoints"
    and "net e (length (sent s) + i) (session_get s (base_url s @ sensitive_endpoints ! i)) = Inr r"
  shows "length (results (test_authorization e s)) = length (results s) + 7
    \<and> (status_code r \<in> {401, 403, 404} \<longrightarrow>
         status (results (test_authorization e s) ! (length (results s) + i)) = ''PASS'')
    \<and> (200 \<le> status_code r \<and> status_code r < 300 \<longrightarrow>
         status (results (test_authorization e s) ! (length (results s) + i)) = ''FAIL'')"
  using sensitive_endpoint_loop_status [OF assms]
        sensitive_endpoint_loop_length [of e sensitive_endpoints s]
  by (auto simp: test_authorization_def sensitive_endpoints_def)

theorem authorization_classification_witness:
  "status (results (test_authorization (answering_env (plain_response 200)) sample_tester) ! 5) = ''FAIL''
   \<and> status (results (test_authorization (answering_env (plain_response 403)) sample_tester) ! 3) = ''PASS''"
  using authorization_classification [of 5 "answering_env (plain_response 200)" sample_tester "plain_response 200"]
        authorization_classification [of 3 "answering_env (plain_response 403)" sample_tester "plain_response 403"]
  by (simp add: answering_env_def plain_response_def sample_tester_def sensitive_endpoints_def)

subsection \<open>The TLS check\<close>

text \<open>
  Claim C2, as stated, fails: the status code 303 is a redirect of the 30x family, and with
  a \<open>Location\<close> that starts with \<open>https://\<close> the record is \<open>FAIL\<close>, not \<open>PASS\<close>.
\<close>

theorem tls_redirect_303_counterexample:
  "prefix ''https://'' (base_url sample_tester)
   \<and> header_get \<lparr>status_code = 303, headers = [(''Location'', ''https://eagle.example/'')],
                   text_body = []\<rparr> ''Location'' = Some ''https://eagle.example/''
   \<and> map status
        (results (test_ssl_configuration
           (answering_env \<lparr>status_code = 303, headers = [(''Location'', ''https://eagle.example/'')],
                            text_body = []\<rparr>)
           sample_tester)) = [''FAIL'']"
  by (simp add: test_ssl_configuration_def sample_tester_def init_def rstrip_def send_def
        answering_env_def header_get_def lower_def lower_char_def Let_def)

text \<open>
  Claim C2, amended. With a base URL that starts with \<open>https://\<close> the check sends one
  request, to the URL with \<open>http://\<close> in place of \<open>https://\<close> and without following
  redirects; when it gets a response, one record is appended, with status \<open>PASS\<close> if the
  status code is 301, 302, 307 or 308 and the \<open>Location\<close> header starts with \<open>https://\<close>,
  and with status \<open>FAIL\<close> for every other response. With any other base URL the check
  appends one record with status \<open>WARN\<close> and sends no request.
\<close>

theorem tls_classification:
  "(prefix ''https://'' (base_url s) \<longrightarrow>
      sent (test_ssl_configuration e s) =
        sent s @ [(plain_get (str_replace ''https://'' ''http://'' (base_url s)) [])
                    \<lparr>allow_redirects := False\<rparr>]
      \<and> (\<forall>r. net e (length (sent s))
                ((plain_get (str_replace ''https://'' ''http://'' (base_url s)) [])
                   \<lparr>allow_redirects := False\<rparr>) = Inr r \<longrightarrow>
             (\<exists>rec. results (test_ssl_configuration e s) = results s @ [rec]
                \<and> status rec =
                    (if status_code r \<in> {301, 302, 307, 308}
                        \<and> prefix ''https://''
                             (case header_get r ''Location'' of None \<Rightarrow> [] | Some l \<Rightarrow> l)
                     then ''PASS'' else ''FAIL''))))
   \<and> (\<not> prefix ''https://'' (base_url s) \<longrightarrow>
        (\<exists>rec. results (test_ssl_configuration e s) = results s @ [rec] \<and> status rec = ''WARN'')
        \<and> sent (test_ssl_configuration e s) = sent s)"
  by (auto simp: test_ssl_configuration_def send_def Let_def split: sum.splits)

theorem tls_classification_witness:
  "(\<exists>rec. results (test_ssl_configuration
              (answering_env \<lparr>status_code = 301, headers = [(''Location'', ''https://eagle.example/'')],
                               text_body = []\<rparr>) sample_tester) = [rec]
          \<and> status rec = ''PASS'')
   \<and> (\<exists>rec. results (test_ssl_configuration (answering_env (plain_response 200))
                       (init ''http://localhost:8080'' None)) = [rec]
          \<and> status rec = ''WARN'')"
  using tls_classification [of sample_tester
          "answering_env \<lparr>status_code = 301, headers = [(''Location'', ''https://eagle.example/'')],
                           text_body = []\<rparr>"]
        tls_classification [of "init ''http://localhost:8080'' None" "answering_env (plain_response 200)"]
  by (simp add: sample_tester_def init_def rstrip_def answering_env_def header_get_def lower_def
        lower_char_def)

subsection \<open>The expired-token step\<close>

lemma generate_expired_token_nonempty:
  "fst (generate_expired_token e s) = Some tok \<Longrightarrow> tok \<noteq> []"
  by (auto simp: generate_expired_token_def datetime_now_def now_def Let_def split: sum.splits)

text \<open>
  Claim C3, as stated, fails: when the token cannot be built, the generator returns \<open>None\<close>
  and the step appends no record at all.
\<close>

theorem expired_token_failure_counterexample:
  "fst (generate_expired_token (broken_clock_env (plain_response 401)) sample_tester) = None
   \<and> results (auth_expired_token (broken_clock_env (plain_response 401)) sample_tester) = []"
  by (simp add: auth_expired_token_def generate_expired_token_def datetime_now_def now_def
        dt_timestamp_def mktime_def local_seconds_def broken_clock_env_def sample_tester_def
        init_def)

text \<open>
  Claim C3, amended. When the token cannot be built, the step appends no record and sends
  no request, and the run continues. When it is built, the step sends one request with it:
  a response with status code 401 gives a record with status \<open>PASS\<close>, a response with any
  other status code a record with status \<open>FAIL\<close>, and an exception raised by the request a
  record with status \<open>WARN\<close> and severity \<open>WARN\<close>.
\<close>

theorem expired_token_step:
  "(fst (generate_expired_token e s) = None \<longrightarrow>
      results (auth_expired_token e s) = results s \<and> sent (auth_expired_token e s) = sent s)
   \<and> (\<forall>tok. fst (generate_expired_token e s) = Some tok \<longrightarrow>
        (\<forall>r. net e (length (sent s))
                (plain_get (status_url s) [(''Authorization'', ''Bearer '' @ tok)]) = Inr r \<longrightarrow>
           (\<exists>rec. results (auth_expired_token e s) = results s @ [rec]
              \<and> status rec = (if status_code r = 401 then ''PASS'' else ''FAIL'')))
        \<and> (\<forall>ex. net e (length (sent s))
                (plain_get (status_url s) [(''Authorization'', ''Bearer '' @ tok)]) = Inl ex \<longrightarrow>
           (\<exists>rec. results (auth_expired_token e s) = results s @ [rec]
              \<and> status rec = ''WARN'' \<and> severity rec = ''WARN'')))"
proof (cases "generate_expired_token e s")
  case (Pair out s1)
  have fr: "results s1 = results s" "sent s1 = sent s" "status_url s1 = status_url s"
    using Pair generate_expired_token_results [of e s] generate_expired_token_frame [of e s]
    by (simp_all add: status_url_def)
  show ?thesis
  proof (cases out)
    case None
    with Pair fr show ?thesis by (simp add: auth_expired_token_def)
  next
    case (Some tok)
    with Pair have "tok \<noteq> []"
      using generate_expired_token_nonempty [of e s tok] by simp
    with Pair Some fr show ?thesis
      by (auto simp: auth_expired_token_def send_def split: sum.splits)
  qed
qed

theorem expired_token_step_witness:
  "\<exists>tok rec. fst (generate_expired_token (answering_env (plain_response 401)) sample_tester) = Some tok
     \<and> results (auth_expired_token (answering_env (plain_response 401)) sample_tester) = [rec]
     \<and> status rec = ''PASS''"
proof -
  have "\<exists>tok. fst (generate_expired_token (answering_env (plain_response 401)) sample_tester) = Some tok"
    by (rule generate_expired_token_returns) (simp add: answering_env_def)
  then obtain tok where
    tok: "fst (generate_expired_token (answering_env (plain_response 401)) sample_tester) = Some tok"
    by blast
  have "net (answering_env (plain_response 401)) (length (sent sample_tester))
          (plain_get (status_url sample_tester) [(''Authorization'', ''Bearer '' @ tok)])
        = Inr (plain_response 401)"
    by (simp add: answering_env_def)
  with tok expired_token_step [of "answering_env (plain_response 401)" sample_tester]
  show ?thesis
    by (auto simp: plain_response_def sample_tester_def)
qed

subsection \<open>The security headers\<close>

lemma security_header_check_results:
  "results (security_header_check e r (h, ex) s) =
     results s @
       [\<lparr>timestamp = clock e (ticks s), test = ''Security Header '' @ h,
         status = (case header_get r h of
                     None \<Rightarrow> ''FAIL''
                   | Some v \<Rightarrow>
                       (case ex of
                          AnyValue \<Rightarrow> ''PASS''
                        | OneOf vs \<Rightarrow> if v \<in> set vs then ''PASS'' else ''WARN''
                        | Exact x \<Rightarrow> if v = x then ''PASS'' else ''WARN'')),
         details = details (last (results (security_header_check e r (h, ex) s))),
         severity = severity (last (results (security_header_check e r (h, ex) s)))\<rparr>]"
  by (simp add: security_header_check_def Let_def split: option.splits expected.splits)

lemma security_header_loop_status:
  "map status (drop (length (results s)) (results (fold (security_header_check e r) hs s))) =
     map (\<lambda>(h, ex). case header_get r h of
                     None \<Rightarrow> ''FAIL''
                   | Some v \<Rightarrow>
                       (case ex of
                          AnyValue \<Rightarrow> ''PASS''
                        | OneOf vs \<Rightarrow> if v \<in> set vs then ''PASS'' else ''WARN''
                        | Exact x \<Rightarrow> if v = x then ''PASS'' else ''WARN'')) hs"
proof (induction hs arbitrary: s)
  case Nil
  show ?case by simp
next
  case (Cons item hs)
  obtain h ex where item: "item = (h, ex)" by (cases item)
  let ?s1 = "security_header_check e r (h, ex) s"
  obtain rec where rec: "results ?s1 = results s @ [rec]"
    and st: "status rec = (case header_get r h of
                     None \<Rightarrow> ''FAIL''
                   | Some v \<Rightarrow>
                       (case ex of
                          AnyValue \<Rightarrow> ''PASS''
                        | OneOf vs \<Rightarrow> if v \<in> set vs then ''PASS'' else ''WARN''
                        | Exact x \<Rightarrow> if v = x then ''PASS'' else ''WARN''))"
    using security_header_check_results [of e r h ex s] by simp
  have "prefix (results ?s1) (results (fold (security_header_check e r) hs ?s1))"
    by (rule appends_prefix [OF appends_fold [where Q = "record_ok False"]])
       (rule appends_security_header_check)
  then obtain more where more: "results (fold (security_header_check e r) hs ?s1) = results ?s1 @ more"
    by (auto simp: prefix_def)
  have "drop (length (results s)) (results (fold (security_header_check e r) hs ?s1))
        = rec # drop (length (results ?s1)) (results (fold (security_header_check e r) hs ?s1))"
    using more rec by simp
  then show ?case
    using Cons.IH [of ?s1] st item by simp
qed

text \<open>
  Claim C6. When the reference request gets a response, the header check appends five
  records, one per required header in the order of the table. The record of a header that
  the response does not have has status \<open>FAIL\<close>; so with none of the five headers, all five
  records are \<open>FAIL\<close>. The record of a header that is present is never \<open>FAIL\<close>: it is \<open>PASS\<close> when
  the value matches what is expected (any value, one of the allowed values, or the exact
  value) and \<open>WARN\<close> when it does not.
\<close>

theorem security_headers_missing:
  assumes "net e (length (sent s)) (session_get s (status_url s)) = Inr r"
  shows "length (results (test_security_headers e s)) = length (results s) + 5
    \<and> (\<forall>i<5. header_get r (fst (required_headers ! i)) = None \<longrightarrow>
          status (results (test_security_headers e s) ! (length (results s) + i)) = ''FAIL'')
    \<and> ((\<forall>h \<in> set (map fst required_headers). header_get r h = None) \<longrightarrow>
          map status (drop (length (results s)) (results (test_security_headers e s)))
            = replicate 5 ''FAIL'')
    \<and> (\<forall>i<5. \<forall>v. header_get r (fst (required_headers ! i)) = Some v \<longrightarrow>
          status (results (test_security_headers e s) ! (length (results s) + i)) =
            (if (case snd (required_headers ! i) of
                   AnyValue \<Rightarrow> True
                 | OneOf vs \<Rightarrow> v \<in> set vs
                 | Exact x \<Rightarrow> v = x)
             then ''PASS'' else ''WARN''))"
proof -
  let ?T = "test_security_headers e s"
  let ?n = "length (results s)"
  let ?f = "\<lambda>(h, ex). case header_get r h of
                     None \<Rightarrow> ''FAIL''
                   | Some v \<Rightarrow>
                       (case ex of
                          AnyValue \<Rightarrow> ''PASS''
                        | OneOf vs \<Rightarrow> if v \<in> set vs then ''PASS'' else ''WARN''
                        | Exact x \<Rightarrow> if v = x then ''PASS'' else ''WARN'')"
  let ?s1 = "s\<lparr>sent := sent s @ [session_get s (status_url s)]\<rparr>"
  have T: "?T = fold (security_header_check e r) required_headers ?s1"
    using assms by (simp add: test_security_headers_def send_def)
  have ms: "map status (drop ?n (results ?T)) = map ?f required_headers"
    using security_header_loop_status [of ?s1 e r required_headers] by (simp add: T)
  have "length (map status (drop ?n (results ?T))) = 5"
    by (simp only: ms) (simp add: required_headers_def)
  then have len: "length (results ?T) = ?n + 5" by simp
  have nth: "status (results ?T ! (?n + i)) = ?f (required_headers ! i)" if "i < 5" for i
  proof -
    have "map status (drop ?n (results ?T)) ! i = status (results ?T ! (?n + i))"
      using that len by simp
    moreover have "i < length required_headers"
      using that by (simp add: required_headers_def)
    then have "map ?f required_headers ! i = ?f (required_headers ! i)"
      by (rule nth_map)
    ultimately show ?thesis by (simp add: ms)
  qed
  have absent: "\<forall>i<5. header_get r (fst (required_headers ! i)) = None \<longrightarrow>
                  status (results ?T ! (?n + i)) = ''FAIL''"
    by (auto simp: nth split: prod.splits)
  have all_absent: "map status (drop ?n (results ?T)) = replicate 5 ''FAIL''"
    if "\<forall>h \<in> set (map fst required_headers). header_get r h = None"
    using that by (simp add: ms) (simp add: required_headers_def numeral_eq_Suc)
  have present: "\<forall>i<5. \<forall>v. header_get r (fst (required_headers ! i)) = Some v \<longrightarrow>
          status (results ?T ! (?n + i)) =
            (if (case snd (required_headers ! i) of
                   AnyValue \<Rightarrow> True
                 | OneOf vs \<Rightarrow> v \<in> set vs
                 | Exact x \<Rightarrow> v = x)
             then ''PASS'' else ''WARN'')"
    by (auto simp: nth split: prod.splits expected.splits)
  from len absent all_absent present show ?thesis by blast
qed

theorem security_headers_missing_witness:
  "map status (results (test_security_headers (answering_env (plain_response 200)) sample_tester))
     = [''FAIL'', ''FAIL'', ''FAIL'', ''FAIL'', ''FAIL'']"
  using security_headers_missing [of "answering_env (plain_response 200)" sample_tester "plain_response 200"]
  by (simp add: answering_env_def plain_response_def sample_tester_def header_get_def
        required_headers_def numeral_eq_Suc)

subsection \<open>Rate limiting\<close>

lemma rate_limit_requests_all:
  "\<forall>i<n. net e (length (sent s) + i) (session_get s (status_url s)) = Inr (resp i) \<Longrightarrow>
   rate_limit_requests e n acc s =
     (Inr (acc @ map (\<lambda>i. status_code (resp i)) [0..<n]),
      s\<lparr>sent := sent s @ replicate n (session_get s (status_url s))\<rparr>)"
proof (induction n arbitrary: acc s resp)
  case 0
  show ?case by simp
next
  case (Suc n)
  let ?rq = "session_get s (status_url s)"
  let ?s1 = "s\<lparr>sent := sent s @ [?rq]\<rparr>"
  have rq1: "session_get ?s1 (status_url ?s1) = ?rq"
    by (simp add: session_get_def status_url_def)
  have first: "net e (length (sent s)) ?rq = Inr (resp 0)"
    using Suc.prems by (metis add.right_neutral zero_less_Suc)
  have "\<forall>i<n. net e (length (sent ?s1) + i) (session_get ?s1 (status_url ?s1)) = Inr (resp (Suc i))"
  proof (intro allI impI)
    fix i
    assume "i < n"
    then have "Suc i < Suc n" by simp
    with Suc.prems have "net e (length (sent s) + Suc i) ?rq = Inr (resp (Suc i))" by blast
    then show "net e (length (sent ?s1) + i) (session_get ?s1 (status_url ?s1)) = Inr (resp (Suc i))"
      by (simp add: rq1)
  qed
  from Suc.IH [OF this, of "acc @ [status_code (resp 0)]"] first
  show ?case
    by (simp add: send_def rq1 map_upt_Suc replicate_app_Cons_same del: upt_Suc)
qed

lemma rate_limited_iff:
  "list_ex (\<lambda>st. st = 429) (map (\<lambda>i. status_code (resp i)) [0..<n]) =
     (\<exists>i<n. status_code (resp i) = 429)"
  by (auto simp: list_ex_iff)

lemma test_rate_limiting_one_record:
  "\<exists>rec. results (test_rate_limiting e s) = results s @ [rec] \<and> status rec \<noteq> ''FAIL''"
proof (cases "rate_limit_requests e 50 [] s")
  case (Pair out s1)
  then have "results s1 = results s"
    using rate_limit_requests_results [of e 50 "[]" s] by simp
  with Pair show ?thesis
    by (cases out) (simp_all add: test_rate_limiting_def Let_def)
qed

text \<open>
  Claim C7. The rate-limiting check appends exactly one record, and its status is never
  \<open>FAIL\<close>. When each of its requests gets a response, it sends exactly 50 requests to the
  status endpoint, one after the other, and the record has status \<open>PASS\<close> if one of the 50
  status codes is 429 and status \<open>WARN\<close> otherwise.
\<close>

theorem rate_limiting_classification:
  "(\<exists>rec. results (test_rate_limiting e s) = results s @ [rec] \<and> status rec \<noteq> ''FAIL'')
   \<and> ((\<forall>i<50. net e (length (sent s) + i) (session_get s (status_url s)) = Inr (resp i)) \<longrightarrow>
        sent (test_rate_limiting e s) = sent s @ replicate 50 (session_get s (status_url s))
        \<and> (\<exists>rec. results (test_rate_limiting e s) = results s @ [rec]
              \<and> status rec = (if \<exists>i<50. status_code (resp i) = 429 then ''PASS'' else ''WARN'')))"
proof -
  have "sent (test_rate_limiting e s) = sent s @ replicate 50 (session_get s (status_url s))
        \<and> (\<exists>rec. results (test_rate_limiting e s) = results s @ [rec]
              \<and> status rec = (if \<exists>i<50. status_code (resp i) = 429 then ''PASS'' else ''WARN''))"
    if "\<forall>i<50. net e (length (sent s) + i) (session_get s (status_url s)) = Inr (resp i)"
    using rate_limit_requests_all [OF that, of "[]"] rate_limited_iff [of resp 50]
    by (simp add: test_rate_limiting_def Let_def del: upt_rec_numeral)
  with test_rate_limiting_one_record [of e s] show ?thesis by blast
qed

theorem rate_limiting_classification_witness:
  "(\<exists>rec. results (test_rate_limiting (answering_env (plain_response 429)) sample_tester) = [rec]
       \<and> status rec = ''PASS'')
   \<and> (\<exists>rec. results (test_rate_limiting (answering_env (plain_response 200)) sample_tester) = [rec]
       \<and> status rec = ''WARN'')
   \<and> length (sent (test_rate_limiting (answering_env (plain_response 200)) sample_tester)) = 50"
proof -
  have ex: "\<exists>i::nat. i < 50" by (rule exI [of _ 0]) simp
  have r0: "results sample_tester = []" and s0: "sent sample_tester = []"
    by (simp_all add: sample_tester_def init_def)
  show ?thesis
    using rate_limiting_classification [of "answering_env (plain_response 429)" sample_tester
            "\<lambda>i. plain_response 429"]
          rate_limiting_classification [of "answering_env (plain_response 200)" sample_tester
            "\<lambda>i. plain_response 200"]
    by (simp add: answering_env_def plain_response_def r0 s0 ex)
qed

subsection \<open>The synthetic expired token\<close>

lemma of_char_b64url_char:
  "(of_char (b64url_char n) :: nat) =
     (if n < 26 then 65 + n else if n < 52 then 71 + n else if n < 62 then n - 4
      else if n = 62 then 45 else 95)"
  by (simp add: b64url_char_def)

lemma b64url_val_char: "n < 64 \<Longrightarrow> b64url_val (b64url_char n) = Some n"
  by (simp add: b64url_val_def of_char_b64url_char Let_def) arith

lemma b64url_char_not_pad: "b64url_char n \<noteq> CHR ''=''"
proof
  assume "b64url_char n = CHR ''=''"
  then have "(of_char (b64url_char n) :: nat) = of_char CHR ''=''" by simp
  then show False by (simp add: of_char_b64url_char split: if_splits)
qed

lemma b64url_char_not_dot: "b64url_char n \<noteq> CHR ''.''"
proof
  assume "b64url_char n = CHR ''.''"
  then have "(of_char (b64url_char n) :: nat) = of_char CHR ''.''" by simp
  then show False by (simp add: of_char_b64url_char split: if_splits)
qed

lemma urlsafe_b64encode_no_dot: "CHR ''.'' \<notin> set (urlsafe_b64encode bs)"
  by (induction bs rule: urlsafe_b64encode.induct)
     (auto simp: Let_def b64url_char_not_dot [symmetric])

lemma set_rstrip: "set (rstrip c xs) \<subseteq> set xs"
  by (auto simp: rstrip_def dest: set_dropWhileD)

lemma rstrip_keep:
  assumes "xs \<noteq> []" and "last xs \<noteq> c"
  shows "rstrip c (xs @ ys) = xs @ rstrip c ys"
proof -
  have "dropWhile (\<lambda>x. x = c) (rev xs) = rev xs"
    using assms by (simp add: dropWhile_eq_self_iff hd_rev)
  then show ?thesis
    by (simp add: rstrip_def dropWhile_append)
qed

lemma rstrip_pad [simp]: "rstrip c [] = []" "rstrip c [c] = []" "rstrip c [c, c] = []"
  by (simp_all add: rstrip_def)

lemma sextet1: "(x::nat) < 256 \<Longrightarrow> x div 4 < 64"
  by (simp add: less_mult_imp_div_less)

lemma sextet2: "(y::nat) < 256 \<Longrightarrow> (x::nat) mod 4 * 16 + y div 16 < 64"
proof -
  assume "y < 256"
  then have "y div 16 < 16" by (simp add: less_mult_imp_div_less)
  moreover have "x mod 4 < 4" by simp
  ultimately show ?thesis by linarith
qed

lemma sextet3: "(z::nat) < 256 \<Longrightarrow> (y::nat) mod 16 * 4 + z div 64 < 64"
proof -
  assume "z < 256"
  then have "z div 64 < 4" by (simp add: less_mult_imp_div_less)
  moreover have "y mod 16 < 16" by simp
  ultimately show ?thesis by linarith
qed

lemma sextet2_pad: "(x::nat) mod 4 * 16 < 64"
  using sextet2 [of 0 x] by simp

lemma sextet3_pad: "(y::nat) mod 16 * 4 < 64"
  using sextet3 [of 0 y] by simp

lemma high_bits_16: "(y::nat) < 256 \<Longrightarrow> y div 16 div 16 = 0"
  by (simp add: div_mult2_eq [symmetric])

lemma high_bits_64: "(z::nat) < 256 \<Longrightarrow> z div 64 div 4 = 0"
  by (simp add: div_mult2_eq [symmetric])

lemma low_bits_16: "(y::nat) < 256 \<Longrightarrow> y div 16 mod 16 = y div 16"
  by (simp add: less_mult_imp_div_less)

lemma low_bits_4: "(z::nat) < 256 \<Longrightarrow> z div 64 mod 4 = z div 64"
  by (simp add: less_mult_imp_div_less)

lemma byte1: "(y::nat) < 256 \<Longrightarrow> (x::nat) div 4 * 4 + (x mod 4 * 16 + y div 16) div 16 = x"
  by (simp add: high_bits_16)

lemma byte2:
  "(y::nat) < 256 \<Longrightarrow> (z::nat) < 256 \<Longrightarrow>
   ((x::nat) mod 4 * 16 + y div 16) mod 16 * 16 + (y mod 16 * 4 + z div 64) div 4 = y"
  by (simp add: high_bits_64 low_bits_16)

lemma byte3: "(z::nat) < 256 \<Longrightarrow> ((y::nat) mod 16 * 4 + z div 64) mod 4 * 64 + z mod 64 = z"
  by (simp add: low_bits_4)

lemma b64url_roundtrip:
  "b64url_decode (rstrip CHR ''='' (urlsafe_b64encode bs)) = Some bs"
proof (induction bs rule: urlsafe_b64encode.induct)
  case 1
  show ?case by simp
next
  case (2 a)
  define x where "x = (of_char a :: nat)"
  have x: "x < 256" by (simp add: x_def)
  have enc: "urlsafe_b64encode [a] =
      [b64url_char (x div 4), b64url_char ((x mod 4) * 16)] @ [CHR ''='', CHR ''='']"
    by (simp add: x_def Let_def)
  have strip: "rstrip CHR ''='' (urlsafe_b64encode [a]) =
      [b64url_char (x div 4), b64url_char ((x mod 4) * 16)]"
    unfolding enc by (subst rstrip_keep) (simp_all add: b64url_char_not_pad)
  have v1: "b64url_val (b64url_char (x div 4)) = Some (x div 4)"
    using x by (intro b64url_val_char sextet1)
  have v2: "b64url_val (b64url_char ((x mod 4) * 16)) = Some ((x mod 4) * 16)"
    by (intro b64url_val_char sextet2_pad)
  have "b64url_decode [b64url_char (x div 4), b64url_char ((x mod 4) * 16)] =
          Some [char_of (x div 4 * 4 + x mod 4 * 16 div 16)]"
    by (simp add: v1 v2)
  also have "x div 4 * 4 + x mod 4 * 16 div 16 = x" by simp
  also have "char_of x = a" by (simp add: x_def)
  finally show ?case by (simp only: strip)
next
  case (3 a b)
  define x where "x = (of_char a :: nat)"
  define y where "y = (of_char b :: nat)"
  have x: "x < 256" and y: "y < 256" by (simp_all add: x_def y_def)
  have enc: "urlsafe_b64encode [a, b] =
      [b64url_char (x div 4), b64url_char ((x mod 4) * 16 + y div 16),
       b64url_char ((y mod 16) * 4)] @ [CHR ''='']"
    by (simp add: x_def y_def Let_def)
  have strip: "rstrip CHR ''='' (urlsafe_b64encode [a, b]) =
      [b64url_char (x div 4), b64url_char ((x mod 4) * 16 + y div 16),
       b64url_char ((y mod 16) * 4)]"
    unfolding enc by (subst rstrip_keep) (simp_all add: b64url_char_not_pad)
  have v1: "b64url_val (b64url_char (x div 4)) = Some (x div 4)"
    using x by (intro b64url_val_char sextet1)
  have v2: "b64url_val (b64url_char ((x mod 4) * 16 + y div 16)) = Some ((x mod 4) * 16 + y div 16)"
    using y by (intro b64url_val_char sextet2)
  have v3: "b64url_val (b64url_char ((y mod 16) * 4)) = Some ((y mod 16) * 4)"
    by (intro b64url_val_char sextet3_pad)
  have "b64url_decode [b64url_char (x div 4), b64url_char ((x mod 4) * 16 + y div 16),
                       b64url_char ((y mod 16) * 4)] =
          Some [char_of (x div 4 * 4 + (x mod 4 * 16 + y div 16) div 16),
                char_of ((x mod 4 * 16 + y div 16) mod 16 * 16 + y mod 16 * 4 div 4)]"
    by (simp add: v1 v2 v3)
  also have "x div 4 * 4 + (x mod 4 * 16 + y div 16) div 16 = x" using y by (rule byte1)
  also have "(x mod 4 * 16 + y div 16) mod 16 * 16 + y mod 16 * 4 div 4 = y"
    using y by (simp add: low_bits_16)
  also have "char_of x = a" by (simp add: x_def)
  also have "char_of y = b" by (simp add: y_def)
  finally show ?case by (simp only: strip)
next
  case (4 a b c rest)
  define x where "x = (of_char a :: nat)"
  define y where "y = (of_char b :: nat)"
  define z where "z = (of_char c :: nat)"
  have x: "x < 256" and y: "y < 256" and z: "z < 256" by (simp_all add: x_def y_def z_def)
  have enc: "urlsafe_b64encode (a # b # c # rest) =
      [b64url_char (x div 4), b64url_char ((x mod 4) * 16 + y div 16),
       b64url_char ((y mod 16) * 4 + z div 64), b64url_char (z mod 64)]
      @ urlsafe_b64encode rest"
    by (simp add: x_def y_def z_def Let_def)
  have strip: "rstrip CHR ''='' (urlsafe_b64encode (a # b # c # rest)) =
      [b64url_char (x div 4), b64url_char ((x mod 4) * 16 + y div 16),
       b64url_char ((y mod 16) * 4 + z div 64), b64url_char (z mod 64)]
      @ rstrip CHR ''='' (urlsafe_b64encode rest)"
    unfolding enc by (subst rstrip_keep) (simp_all add: b64url_char_not_pad)
  have v1: "b64url_val (b64url_char (x div 4)) = Some (x div 4)"
    using x by (intro b64url_val_char sextet1)
  have v2: "b64url_val (b64url_char ((x mod 4) * 16 + y div 16)) = Some ((x mod 4) * 16 + y div 16)"
    using y by (intro b64url_val_char sextet2)
  have v3: "b64url_val (b64url_char ((y mod 16) * 4 + z div 64)) = Some ((y mod 16) * 4 + z div 64)"
    using z by (intro b64url_val_char sextet3)
  have v4: "b64url_val (b64url_char (z mod 64)) = Some (z mod 64)"
    by (intro b64url_val_char) simp
  have "b64url_decode ([b64url_char (x div 4), b64url_char ((x mod 4) * 16 + y div 16),
                        b64url_char ((y mod 16) * 4 + z div 64), b64url_char (z mod 64)]
                       @ rstrip CHR ''='' (urlsafe_b64encode rest)) =
          Some (char_of (x div 4 * 4 + (x mod 4 * 16 + y div 16) div 16)
                # char_of ((x mod 4 * 16 + y div 16) mod 16 * 16 + (y mod 16 * 4 + z div 64) div 4)
                # char_of ((y mod 16 * 4 + z div 64) mod 4 * 64 + z mod 64) # rest)"
    by (simp add: v1 v2 v3 v4 "4.IH")
  also have "x div 4 * 4 + (x mod 4 * 16 + y div 16) div 16 = x" using y by (rule byte1)
  also have "(x mod 4 * 16 + y div 16) mod 16 * 16 + (y mod 16 * 4 + z div 64) div 4 = y"
    using y z by (rule byte2)
  also have "(y mod 16 * 4 + z div 64) mod 4 * 64 + z mod 64 = z" using z by (rule byte3)
  also have "char_of x = a" by (simp add: x_def)
  also have "char_of y = b" by (simp add: y_def)
  also have "char_of z = c" by (simp add: z_def)
  finally show ?case by (simp only: strip)
qed

lemma generate_expired_token_Some:
  assumes "fst (generate_expired_token e s) = Some tok"
  shows "\<exists>t1 t2.
           dt_timestamp e (local_datetime e (clock e (ticks s)) - hours 1) = Inr t1
           \<and> dt_timestamp e (local_datetime e (clock e (Suc (ticks s))) - hours 2) = Inr t2
           \<and> tok = rstrip CHR ''='' (urlsafe_b64encode (json_dumps token_header)) @ ''.''
                   @ rstrip CHR ''='' (urlsafe_b64encode (json_dumps
                       (token_payload (py_int t1) (py_int t2))))
                   @ ''.'' @ ''fake_signature''"
  using assms
  by (auto simp: generate_expired_token_def datetime_now_def now_def Let_def split: sum.splits)

text \<open>
  What holds of every token that the generator returns: it has exactly two dots, around a
  middle segment without dots, and decoding the middle segment from base64url gives the
  JSON text of the payload, whose \<open>exp\<close> field is \<^verbatim>\<open>int()\<close> of the timestamp of the first
  reading of the clock, taken back one hour on the local wall clock.
\<close>

lemma expired_token_segments:
  assumes "fst (generate_expired_token e s) = Some tok"
  shows "count_list tok CHR ''.'' = 2
    \<and> (\<exists>h p t1 ia.
          tok = h @ ''.'' @ p @ ''.'' @ ''fake_signature''
          \<and> CHR ''.'' \<notin> set h \<and> CHR ''.'' \<notin> set p
          \<and> b64url_decode h = Some (json_dumps token_header)
          \<and> b64url_decode p = Some (json_dumps (token_payload (py_int t1) ia))
          \<and> map_of (token_payload (py_int t1) ia) ''exp'' = Some (JInt (py_int t1))
          \<and> dt_timestamp e (local_datetime e (clock e (ticks s)) - hours 1) = Inr t1)"
proof -
  obtain t1 t2 where t1: "dt_timestamp e (local_datetime e (clock e (ticks s)) - hours 1) = Inr t1"
    and tok: "tok = rstrip CHR ''='' (urlsafe_b64encode (json_dumps token_header)) @ ''.''
                   @ rstrip CHR ''='' (urlsafe_b64encode (json_dumps
                       (token_payload (py_int t1) (py_int t2))))
                   @ ''.'' @ ''fake_signature''"
    using generate_expired_token_Some [OF assms] by blast
  have nodot: "\<And>bs. CHR ''.'' \<notin> set (rstrip CHR ''='' (urlsafe_b64encode bs))"
    using set_rstrip urlsafe_b64encode_no_dot by blast
  have "count_list tok CHR ''.'' = 2"
    unfolding tok by (simp add: nodot)
  moreover have "map_of (token_payload (py_int t1) (py_int t2)) ''exp'' = Some (JInt (py_int t1))"
    by (simp add: token_payload_def)
  ultimately show ?thesis
    using tok t1 nodot b64url_roundtrip by blast
qed

text \<open>The conversion of the time on some platforms.\<close>

lemma mktime_fixed_offset:
  "\<forall>u. mktime_ok e u \<Longrightarrow> \<forall>u. utc_offset e u = off \<Longrightarrow> mktime e t = Inr (t - off)"
  by (simp add: mktime_def mktime_second_guess_def local_seconds_def Let_def)

lemma to_double_0 [simp]: "to_double 0 = 0"
  by (simp add: to_double_def)

lemma to_double_second_1711846800: "to_double 1711846800 = 1711846800"
  by (simp add: to_double_def exponent2_def halvings.simps pow2_def round_half_even_def Let_def)

lemma to_double_second_1711850400: "to_double 1711850400 = 1711850400"
  by (simp add: to_double_def exponent2_def halvings.simps pow2_def round_half_even_def Let_def)

lemma mktime_lisbon_gap: "mktime (summer_time_env lisbon_offset) 1711846800 = Inr 1711846800"
  by (simp add: mktime_def mktime_second_guess_def local_seconds_def summer_time_env_def
        lisbon_offset_def Let_def)

lemma mktime_troll_gap: "mktime (summer_time_env troll_offset) 1711850400 = Inr 1711850400"
  by (simp add: mktime_def mktime_second_guess_def local_seconds_def summer_time_env_def
        troll_offset_def Let_def)

lemma dt_timestamp_lisbon_gap:
  "dt_timestamp (summer_time_env lisbon_offset)
     (local_datetime (summer_time_env lisbon_offset) 1711846800000000 - hours 1)
   = Inr 1711846800"
proof -
  have "local_datetime (summer_time_env lisbon_offset) 1711846800000000 - hours 1
        = 1711846800000000"
    by (simp add: local_datetime_def summer_time_env_def lisbon_offset_def hours_def)
  then show ?thesis
    by (simp add: dt_timestamp_def mktime_lisbon_gap to_double_second_1711846800)
qed

lemma dt_timestamp_troll_gap:
  "dt_timestamp (summer_time_env troll_offset)
     (local_datetime (summer_time_env troll_offset) 1711846800000000 - hours 1)
   = Inr 1711850400"
proof -
  have "local_datetime (summer_time_env troll_offset) 1711846800000000 - hours 1
        = 1711850400000000"
    by (simp add: local_datetime_def summer_time_env_def troll_offset_def hours_def)
  then show ?thesis
    by (simp add: dt_timestamp_def mktime_troll_gap to_double_second_1711850400)
qed

text \<open>
  Claim C8 holds of the dots and of the decoding (\<open>expired_token_segments\<close>), but not of the
  time: the hour is subtracted on the local wall clock, and when the result falls into the
  gap at the beginning of summer time it is converted as if it lay after the gap. With the
  offsets of Europe/Lisbon, at 2024-03-31 02:00:00 local time, the token's \<open>exp\<close> is
  1711846800, the very second of the generation, not an earlier one; with the offsets of
  Antarctica/Troll, at 03:00:00 local time of the same instant, \<open>exp\<close> is 1711850400, an
  hour after the generation.
\<close>

theorem expired_token_summer_time:
  "(\<exists>h p ia.
      fst (generate_expired_token (summer_time_env lisbon_offset) sample_tester)
        = Some (h @ ''.'' @ p @ ''.'' @ ''fake_signature'')
      \<and> CHR ''.'' \<notin> set h \<and> CHR ''.'' \<notin> set p
      \<and> b64url_decode p = Some (json_dumps (token_payload 1711846800 ia)))
   \<and> clock (summer_time_env lisbon_offset) (ticks sample_tester) = 1711846800 * 1000000
   \<and> (\<exists>h p ia.
      fst (generate_expired_token (summer_time_env troll_offset) sample_tester)
        = Some (h @ ''.'' @ p @ ''.'' @ ''fake_signature'')
      \<and> CHR ''.'' \<notin> set h \<and> CHR ''.'' \<notin> set p
      \<and> b64url_decode p = Some (json_dumps (token_payload 1711850400 ia)))
   \<and> clock (summer_time_env troll_offset) (ticks sample_tester) < 1711850400 * 1000000"
proof -
  have t0: "ticks sample_tester = 0"
    by (simp add: sample_tester_def init_def)
  have c0: "\<And>off. clock (summer_time_env off) 0 = 1711846800000000"
    by (simp add: summer_time_env_def)
  have ok: "\<And>off. \<forall>u. mktime_ok (summer_time_env off) u"
    by (simp add: summer_time_env_def)
  have lisbon: "\<exists>h p ia.
      fst (generate_expired_token (summer_time_env lisbon_offset) sample_tester)
        = Some (h @ ''.'' @ p @ ''.'' @ ''fake_signature'')
      \<and> CHR ''.'' \<notin> set h \<and> CHR ''.'' \<notin> set p
      \<and> b64url_decode p = Some (json_dumps (token_payload 1711846800 ia))"
  proof -
    obtain tok where
      "fst (generate_expired_token (summer_time_env lisbon_offset) sample_tester) = Some tok"
      using generate_expired_token_returns [OF ok] by blast
    from expired_token_segments [OF this] this show ?thesis
      by (auto simp: t0 c0 dt_timestamp_lisbon_gap py_int_def)
  qed
  have troll: "\<exists>h p ia.
      fst (generate_expired_token (summer_time_env troll_offset) sample_tester)
        = Some (h @ ''.'' @ p @ ''.'' @ ''fake_signature'')
      \<and> CHR ''.'' \<notin> set h \<and> CHR ''.'' \<notin> set p
      \<and> b64url_decode p = Some (json_dumps (token_payload 1711850400 ia))"
  proof -
    obtain tok where
      "fst (generate_expired_token (summer_time_env troll_offset) sample_tester) = Some tok"
      using generate_expired_token_returns [OF ok] by blast
    from expired_token_segments [OF this] this show ?thesis
      by (auto simp: t0 c0 dt_timestamp_troll_gap py_int_def)
  qed
  from lisbon troll show ?thesis
    by (simp add: t0 c0)
qed

text \<open>
  For comparison, a platform on UTC at the second 1700000000: the time for \<open>exp\<close> is one
  hour before the reading.
\<close>

lemma dt_timestamp_utc:
  "dt_timestamp refusing_env (local_datetime refusing_env 1700000000000000 - hours 1)
   = Inr 1699996400"
proof -
  have d: "local_datetime refusing_env 1700000000000000 - hours 1 = 1699996400000000"
    by (simp add: local_datetime_def refusing_env_def hours_def)
  have m: "mktime refusing_env 1699996400 = Inr 1699996400"
    using mktime_fixed_offset [of refusing_env 0 1699996400] by (simp add: refusing_env_def)
  have f: "to_double 1699996400 = 1699996400"
    by (simp add: to_double_def exponent2_def halvings.simps pow2_def round_half_even_def Let_def)
  show ?thesis
    by (simp add: d dt_timestamp_def m f)
qed

end
